theory Spec2Isabelle
  imports Complex_Main "HOL-Library.Multiset" "HOL-Library.Sublist"
begin

section \<open>Values of the command line and of the environment\<close>

text \<open>
  \<open>parseArgs\<close> fills the option bag with strings (\<open>--key value\<close>, \<open>--key=value\<close>) and
  with the boolean \<open>true\<close> (a bare \<open>--key\<close>); a key that was never given reads as
  \<open>undefined\<close>.  An option value is therefore \<open>None\<close> (undefined), \<open>Some Flag\<close> (true)
  or \<open>Some (Str s)\<close>.  Strings are sequences of code units; the model covers the code
  units below 256.
\<close>

datatype argval = Flag | Str string

type_synonym options = "string \<Rightarrow> argval option"

text \<open>JavaScript truthiness of an option value: \<open>undefined\<close> and \<open>''''\<close> are falsy.\<close>

fun truthy :: "argval option \<Rightarrow> bool" where
  "truthy None = False"
| "truthy (Some Flag) = True"
| "truthy (Some (Str s)) = (s \<noteq> [])"

text \<open>\<open>String(v)\<close> and template interpolation of an option value.\<close>

fun String_of :: "argval \<Rightarrow> string" where
  "String_of Flag = ''true''"
| "String_of (Str s) = s"

text \<open>\<open>a || b\<close>: the left operand when it is truthy, the right operand otherwise.\<close>

definition js_or :: "argval option \<Rightarrow> argval option \<Rightarrow> argval option" where
  "js_or a b = (if truthy a then a else b)"

section \<open>Credential resolver\<close>

text \<open>
  \<open>resolveToken(options, envFromFile)\<close>.  \<open>process.env\<close> and the map loaded from the
  \<open>--env-file\<close> hold strings only; both are arguments of the model.
\<close>

definition resolveToken ::
  "options \<Rightarrow> (string \<Rightarrow> string option) \<Rightarrow> (string \<Rightarrow> string option) \<Rightarrow> argval option" where
  "resolveToken opts processEnv envFromFile =
     js_or (js_or (js_or (js_or
       (opts ''token'')
       (map_option Str (processEnv ''CHATWORK_API_TOKEN'')))
       (map_option Str (processEnv ''CHATWORK_TOKEN'')))
       (map_option Str (envFromFile ''CHATWORK_API_TOKEN'')))
       (map_option Str (envFromFile ''CHATWORK_TOKEN''))"

text \<open>The five sources in the order the chain reads them.\<close>

definition token_sources ::
  "options \<Rightarrow> (string \<Rightarrow> string option) \<Rightarrow> (string \<Rightarrow> string option) \<Rightarrow> argval option list" where
  "token_sources opts processEnv envFromFile =
     [opts ''token'',
      map_option Str (processEnv ''CHATWORK_API_TOKEN''),
      map_option Str (processEnv ''CHATWORK_TOKEN''),
      map_option Str (envFromFile ''CHATWORK_API_TOKEN''),
      map_option Str (envFromFile ''CHATWORK_TOKEN'')]"

section \<open>Numbers\<close>

text \<open>
  A JavaScript number is \<open>NaN\<close>, an infinity or a finite value.  Finite values are kept
  as exact rationals (every double is one); \<open>-0\<close> is identified with \<open>0\<close>, which no
  operation below tells apart.
\<close>

datatype jsnum = NaN | NegInf | Fin rat | PosInf

fun truthy_num :: "jsnum \<Rightarrow> bool" where
  "truthy_num NaN = False"
| "truthy_num (Fin r) = (r \<noteq> 0)"
| "truthy_num NegInf = True"
| "truthy_num PosInf = True"

text \<open>\<open>a >= b\<close> and \<open>a <= b\<close> on numbers: false as soon as one side is \<open>NaN\<close>.\<close>

fun js_le :: "jsnum \<Rightarrow> jsnum \<Rightarrow> bool" where
  "js_le NaN b = False"
| "js_le a NaN = False"
| "js_le NegInf b = True"
| "js_le a PosInf = True"
| "js_le PosInf b = False"
| "js_le a NegInf = False"
| "js_le (Fin x) (Fin y) = (x \<le> y)"

definition js_ge :: "jsnum \<Rightarrow> jsnum \<Rightarrow> bool" where
  "js_ge a b = js_le b a"

text \<open>\<open>a > b\<close>.\<close>

definition js_gt :: "jsnum \<Rightarrow> jsnum \<Rightarrow> bool" where
  "js_gt a b = (js_le b a \<and> \<not> js_le a b)"

text \<open>
  \<open>a - b\<close>.  A finite difference is kept exact: the rounding of the machine subtraction
  never changes its sign, which is all the sort reads.
\<close>

fun js_sub :: "jsnum \<Rightarrow> jsnum \<Rightarrow> jsnum" where
  "js_sub NaN b = NaN"
| "js_sub a NaN = NaN"
| "js_sub PosInf PosInf = NaN"
| "js_sub NegInf NegInf = NaN"
| "js_sub PosInf b = PosInf"
| "js_sub NegInf b = NegInf"
| "js_sub a PosInf = NegInf"
| "js_sub a NegInf = PosInf"
| "js_sub (Fin x) (Fin y) = Fin (x - y)"

text \<open>\<open>ToIntegerOrInfinity\<close> on a finite value: truncation towards zero.\<close>

definition to_integer :: "rat \<Rightarrow> int" where
  "to_integer r = (if r < 0 then \<lceil>r\<rceil> else \<lfloor>r\<rfloor>)"

subsection \<open>Reading a number from a string\<close>

definition is_digit :: "char \<Rightarrow> bool" where
  "is_digit c = (48 \<le> (of_char c :: nat) \<and> (of_char c :: nat) \<le> 57)"

text \<open>The test \<open>/^\d+$/\<close>.\<close>

definition all_digits :: "string \<Rightarrow> bool" where
  "all_digits s = (s \<noteq> [] \<and> list_all is_digit s)"

definition dec_value :: "string \<Rightarrow> nat" where
  "dec_value s = foldl (\<lambda>a c. 10 * a + (of_char c - 48)) 0 s"

fun bit_length :: "nat \<Rightarrow> nat" where
  "bit_length n = (if n = 0 then 0 else Suc (bit_length (n div 2)))"

text \<open>
  The double nearest to a natural number: exact below \<open>2 ^ 53\<close>, otherwise rounded to
  53 significant bits (ties to the even significand), and \<open>Infinity\<close> from
  \<open>2 ^ 1024\<close> on.
\<close>

definition round_double :: "nat \<Rightarrow> jsnum" where
  "round_double n =
     (if n < 2 ^ 53 then Fin (of_nat n)
      else
        let e = bit_length n - 53;
            q = n div 2 ^ e;
            r = n mod 2 ^ e;
            h = 2 ^ (e - 1);
            q' = (if h < r \<or> (r = h \<and> odd q) then q + 1 else q);
            m = q' * 2 ^ e
        in if 2 ^ 1024 \<le> m then PosInf else Fin (of_nat m))"

text \<open>\<open>Number(s)\<close> on a string of decimal digits.\<close>

definition Number_digits :: "string \<Rightarrow> jsnum" where
  "Number_digits s = round_double (dec_value s)"

subsection \<open>Rounding to a double\<close>

text \<open>
  The double nearest to a rational number, ties to the even significand: 53
  significant bits down to the exponent \<open>-1022\<close>, steps of \<open>2 ^ -1074\<close> below it, an
  infinity from \<open>2 ^ 1024\<close> on.  \<open>floor_log2 a\<close> is the exponent \<open>e\<close> with
  \<open>2 ^ e \<le> a < 2 ^ (e + 1)\<close>, read off the bit lengths of numerator and denominator.
\<close>

definition floor_log2 :: "rat \<Rightarrow> int" where
  "floor_log2 a =
     (let (p, q) = quotient_of a;
          d = int (bit_length (nat p)) - int (bit_length (nat q))
      in if 2 powi d \<le> a then d else d - 1)"

definition round_half_even :: "rat \<Rightarrow> int" where
  "round_half_even q =
     (let f = \<lfloor>q\<rfloor>; d = q - of_int f
      in if d < 1 / 2 then f else if 1 / 2 < d then f + 1 else if even f then f else f + 1)"

definition to_double :: "rat \<Rightarrow> jsnum" where
  "to_double r =
     (if r = 0 then Fin 0
      else
        let a = \<bar>r\<bar>;
            e = max (floor_log2 a) (- 1022);
            u = 2 powi (e - 52);
            m = of_int (round_half_even (a / u)) * u
        in if 2 ^ 1024 \<le> m then (if r < 0 then NegInf else PosInf)
           else Fin (if r < 0 then - m else m))"

text \<open>\<open>v * 1000\<close>: the product of two doubles is the double nearest to their product.\<close>

fun times1000 :: "jsnum \<Rightarrow> jsnum" where
  "times1000 (Fin r) = to_double (r * 1000)"
| "times1000 v = v"

subsection \<open>The number of an option value\<close>

text \<open>
  \<open>Number(v)\<close> on an option value.  \<open>numParse\<close> stands for the rest of the language's
  string-to-number grammar (signs, fractions, exponents, blanks, other radixes); a
  string it does not accept is \<open>NaN\<close>.
\<close>

fun Number_of :: "(string \<Rightarrow> jsnum option) \<Rightarrow> argval option \<Rightarrow> jsnum" where
  "Number_of numParse None = NaN"
| "Number_of numParse (Some Flag) = Fin 1"
| "Number_of numParse (Some (Str s)) =
     (if s = [] then Fin 0
      else if all_digits s then Number_digits s
      else (case numParse s of None \<Rightarrow> NaN | Some v \<Rightarrow> v))"

text \<open>\<open>parseIntSafe(value, fallback)\<close>: the number when it is finite.\<close>

definition parseIntSafe :: "(string \<Rightarrow> jsnum option) \<Rightarrow> argval option \<Rightarrow> rat \<Rightarrow> rat" where
  "parseIntSafe numParse v fallback =
     (case Number_of numParse v of Fin r \<Rightarrow> r | _ \<Rightarrow> fallback)"

section \<open>Errors\<close>

datatype error = Error string | RangeError string

section \<open>Time expression parser\<close>

text \<open>
  \<open>parseUnixTime(input, optionName)\<close>.  \<open>dateParse\<close> stands for \<open>Date.parse\<close>: a time
  value in whole milliseconds, or \<open>None\<close> for \<open>NaN\<close>.  On the digit branch the input is
  a string, so \<open>Number(input)\<close> is \<open>Number_digits\<close>.  \<open>Math.floor(ms / 1000)\<close> is the
  floor division of the integer \<open>ms\<close> (the quotient of a time value is far enough from
  the next integer for the machine division not to reach it).
\<close>

fun parseUnixTime ::
  "(string \<Rightarrow> int option) \<Rightarrow> argval option \<Rightarrow> string \<Rightarrow> error + jsnum option" where
  "parseUnixTime dateParse None optionName = Inr None"
| "parseUnixTime dateParse (Some v) optionName =
     (if v = Str [] then Inr None
      else if all_digits (String_of v) then Inr (Some (Number_digits (String_of v)))
      else (case dateParse (String_of v) of
              None \<Rightarrow> Inl (Error (''Invalid '' @ optionName @ '': '' @ String_of v))
            | Some ms \<Rightarrow> Inr (Some (Fin (of_int (ms div 1000))))))"

text \<open>
  \<open>parseBool01(value, fallback)\<close>, with \<open>toLowerCase\<close> on the code units below 256.
\<close>

definition lower_char :: "char \<Rightarrow> char" where
  "lower_char c =
     (let n = (of_char c :: nat)
      in if (65 \<le> n \<and> n \<le> 90) \<or> (192 \<le> n \<and> n \<le> 222 \<and> n \<noteq> 215)
         then char_of (n + 32) else c)"

definition toLowerCase :: "string \<Rightarrow> string" where
  "toLowerCase s = map lower_char s"

fun parseBool01 :: "argval option \<Rightarrow> nat \<Rightarrow> nat" where
  "parseBool01 None fallback = fallback"
| "parseBool01 (Some Flag) fallback = 1"
| "parseBool01 (Some (Str s)) fallback =
     (if s = [] then fallback
      else
        let normalized = toLowerCase s
        in if normalized = ''1'' \<or> normalized = ''true'' then 1
           else if normalized = ''0'' \<or> normalized = ''false'' then 0
           else fallback)"

section \<open>Messages\<close>

text \<open>
  A raw message is a record of the remote service.  The code reads four of its
  properties, and the normalizer guards each read against a missing one (\<open>|| 0\<close>,
  \<open>|| ''''\<close>, \<open>?.\<close>, \<open>??\<close>), so every field is optional here: \<open>None\<close> is a property
  the record does not have, \<open>Some v\<close> a value of the property (of its JSON type; for
  \<open>send_time\<close>, any value).
\<close>

record raw_account =
  account_id :: "jsnum option"
  name :: "string option"

text \<open>
  The code reads \<open>send_time\<close> in two ways only: through \<open>Number(.)\<close> and through
  \<open>. || 0\<close>.  A \<open>send_time\<close> that is a JSON number is kept as that number.  Any other
  value is kept as what the two readings make of it: \<open>Falsy\<close> for \<open>null\<close>, \<open>false\<close> and
  the empty string, which are falsy and which \<open>Number\<close> turns into 0; \<open>Truthy n\<close> for
  every other value, which is truthy, with the number \<open>n\<close> that \<open>Number\<close> gives it
  (\<open>NaN\<close> for \<open>'abc'\<close> and for an object, 5 for \<open>'5'\<close>, 1 for \<open>true\<close>, 0 for \<open>[]\<close>).
\<close>

datatype send_value = Num jsnum | Falsy | Truthy jsnum

record raw_message =
  message_id :: "string option"
  account :: "raw_account option"
  msg_body :: "string option"
  send_time :: "send_value option"

text \<open>
  The text of \<open>toISOString\<close> is determined by, and determines, the time value it
  renders; the model keeps that time value (whole milliseconds) in place of the
  characters.
\<close>

datatype iso_string = ISOString int

record canonical_message =
  roomId :: string
  messageId :: string
  sendTimeUnix :: jsnum
  sendTimeIso :: "iso_string option"
  accountId :: "jsnum option"
  accountName :: "string option"
  body :: string
  rawBody :: string

text \<open>
  \<open>new Date(v).toISOString()\<close>: the constructor clips the time value (not finite, or
  beyond 8.64e15 ms in magnitude, is an invalid date; otherwise truncated to an
  integer), and rendering an invalid date throws a \<open>RangeError\<close>.
\<close>

fun toISOString :: "jsnum \<Rightarrow> error + iso_string" where
  "toISOString (Fin r) =
     (if \<bar>r\<bar> \<le> 8640000000000000 then Inr (ISOString (to_integer r))
      else Inl (RangeError ''Invalid time value''))"
| "toISOString v = Inl (RangeError ''Invalid time value'')"

subsection \<open>Tag stripping\<close>

text \<open>
  The three regular expressions of \<open>stripCommonChatworkTags\<close> are sequences of
  literals and \<open>\d+\<close>.  A matcher takes the text at a position and returns what is left
  after the match.  \<open>\d+\<close> is greedy, and in each pattern the character after it is not
  a digit, so taking every digit is the only way to match.
\<close>

definition lit :: "string \<Rightarrow> string \<Rightarrow> string option" where
  "lit p s = (if prefix p s then Some (drop (length p) s) else None)"

definition digits1 :: "string \<Rightarrow> string option" where
  "digits1 s = (if takeWhile is_digit s = [] then None else Some (dropWhile is_digit s))"

text \<open>\<open>/\[To:\d+\]/\<close>\<close>

definition match_to :: "string \<Rightarrow> string option" where
  "match_to s = Option.bind (Option.bind (lit ''[To:'' s) digits1) (lit '']'')"

text \<open>\<open>/\[rp aid=\d+ to=\d+-\d+\]/\<close>\<close>

definition match_rp :: "string \<Rightarrow> string option" where
  "match_rp s =
     Option.bind (Option.bind (Option.bind (Option.bind (Option.bind (Option.bind
       (lit ''[rp aid='' s) digits1) (lit '' to='')) digits1) (lit ''-'')) digits1) (lit '']'')"

text \<open>The alternation of the eight block tags: the first alternative that matches.\<close>

fun first_lit :: "string list \<Rightarrow> string \<Rightarrow> string option" where
  "first_lit [] s = None"
| "first_lit (p # ps) s = (case lit p s of Some r \<Rightarrow> Some r | None \<Rightarrow> first_lit ps s)"

definition match_block :: "string \<Rightarrow> string option" where
  "match_block s =
     first_lit [''[info]'', ''[/info]'', ''[title]'', ''[/title]'',
                ''[code]'', ''[/code]'', ''[qt]'', ''[/qt]''] s"

text \<open>
  \<open>s.replace(/re/g, '''')\<close>: from left to right, a match at the current position is
  dropped and the scan goes on after it; otherwise the character is kept.  What is left
  after a match is a suffix of the text, written as the \<open>drop\<close> of the characters
  matched.
\<close>

fun remove_all :: "(string \<Rightarrow> string option) \<Rightarrow> string \<Rightarrow> string" where
  "remove_all m [] = []"
| "remove_all m (c # cs) =
     (case m (c # cs) of
        Some rest \<Rightarrow> remove_all m (drop (length cs - length rest) cs)
      | None \<Rightarrow> c # remove_all m cs)"

text \<open>\<open>trim\<close>: the white space and line terminators among the code units below 256.\<close>

definition is_space :: "char \<Rightarrow> bool" where
  "is_space c = ((of_char c :: nat) \<in> {9, 10, 11, 12, 13, 32, 160})"

definition trim :: "string \<Rightarrow> string" where
  "trim s = rev (dropWhile is_space (rev (dropWhile is_space s)))"

definition stripCommonChatworkTags :: "string \<Rightarrow> string" where
  "stripCommonChatworkTags b =
     trim (remove_all match_block (remove_all match_rp (remove_all match_to b)))"

subsection \<open>Normalizer\<close>

text \<open>\<open>String(rawMessage.body || '''')\<close>\<close>

definition raw_body_of :: "raw_message \<Rightarrow> string" where
  "raw_body_of m = (case msg_body m of None \<Rightarrow> [] | Some s \<Rightarrow> s)"

text \<open>\<open>Number(v)\<close> and the truthiness of a \<open>send_time\<close> value.\<close>

fun number_of_value :: "send_value \<Rightarrow> jsnum" where
  "number_of_value (Num n) = n"
| "number_of_value Falsy = Fin 0"
| "number_of_value (Truthy n) = n"

fun truthy_value :: "send_value \<Rightarrow> bool" where
  "truthy_value (Num n) = truthy_num n"
| "truthy_value Falsy = False"
| "truthy_value (Truthy n) = True"

text \<open>\<open>Number(msg.send_time)\<close>: a missing property is \<open>undefined\<close>, whose number is \<open>NaN\<close>.\<close>

definition send_key :: "raw_message \<Rightarrow> jsnum" where
  "send_key m = (case send_time m of None \<Rightarrow> NaN | Some v \<Rightarrow> number_of_value v)"

text \<open>\<open>Number(rawMessage.send_time || 0)\<close>\<close>

definition send_time_or_0 :: "raw_message \<Rightarrow> jsnum" where
  "send_time_or_0 m =
     (case send_time m of
        None \<Rightarrow> Fin 0
      | Some v \<Rightarrow> if truthy_value v then number_of_value v else Fin 0)"

definition normalizeReadMessage ::
  "argval \<Rightarrow> raw_message \<Rightarrow> bool \<Rightarrow> error + canonical_message" where
  "normalizeReadMessage room rawMessage stripTags =
     (let raw = raw_body_of rawMessage;
          b = (if stripTags then stripCommonChatworkTags raw else raw);
          t = send_time_or_0 rawMessage
      in case (if truthy_num t then map_sum id Some (toISOString (times1000 t)) else Inr None) of
           Inl e \<Rightarrow> Inl e
         | Inr isoText \<Rightarrow>
             Inr \<lparr> roomId = String_of room,
                   messageId = (case message_id rawMessage of None \<Rightarrow> [] | Some s \<Rightarrow> s),
                   sendTimeUnix = t,
                   sendTimeIso = isoText,
                   accountId = (case account rawMessage of None \<Rightarrow> None | Some a \<Rightarrow> account_id a),
                   accountName = (case account rawMessage of None \<Rightarrow> None | Some a \<Rightarrow> name a),
                   body = b,
                   rawBody = raw \<rparr>)"

section \<open>Read pipeline\<close>

text \<open>
  What \<open>getRoomMessages\<close> resolves to: the parsed response, which is the array of raw
  messages or any other JSON value (\<open>null\<close> for an empty response, the raw text when
  it is not JSON).
\<close>

datatype payload =
    PNull
  | PBool bool
  | PNum jsnum
  | PStr string
  | PObject "(string \<times> payload) list"
  | PArray "raw_message list"

text \<open>\<open>Array.isArray(raw) ? raw : []\<close>\<close>

fun array_or_empty :: "payload \<Rightarrow> raw_message list" where
  "array_or_empty (PArray ms) = ms"
| "array_or_empty p = []"

fun is_array :: "payload \<Rightarrow> bool" where
  "is_array (PArray ms) = True"
| "is_array p = False"

text \<open>The two window filters and the substring filter, as the three \<open>.filter\<close> calls.\<close>

definition since_filter :: "jsnum option \<Rightarrow> raw_message list \<Rightarrow> raw_message list" where
  "since_filter since ms =
     filter (\<lambda>msg. case since of Some s \<Rightarrow> js_ge (send_key msg) s | None \<Rightarrow> True) ms"

definition until_filter :: "jsnum option \<Rightarrow> raw_message list \<Rightarrow> raw_message list" where
  "until_filter until ms =
     filter (\<lambda>msg. case until of Some u \<Rightarrow> js_le (send_key msg) u | None \<Rightarrow> True) ms"

text \<open>\<open>haystack.includes(needle)\<close>\<close>

fun str_includes :: "string \<Rightarrow> string \<Rightarrow> bool" where
  "str_includes [] needle = (needle = [])"
| "str_includes (c # cs) needle = (prefix needle (c # cs) \<or> str_includes cs needle)"

definition contains_filter :: "string \<Rightarrow> raw_message list \<Rightarrow> raw_message list" where
  "contains_filter contains ms =
     filter (\<lambda>msg. if contains \<noteq> [] then str_includes (raw_body_of msg) contains else True) ms"

text \<open>
  \<open>.sort(comparator)\<close>.  The language turns a \<open>NaN\<close> from the comparator into \<open>+0\<close> and
  fixes the result for a consistent comparator: the stable sorted arrangement.  For
  any other comparator the order is left to the engine.  The model is the stable
  insertion sort, which is the result of every engine in the first case; what is
  proved below of the order it produces is stated for that case, where no key of a
  sorted record is \<open>NaN\<close>.
\<close>

fun is_negative :: "jsnum \<Rightarrow> bool" where
  "is_negative (Fin r) = (r < 0)"
| "is_negative NegInf = True"
| "is_negative v = False"

fun insert_sorted :: "('a \<Rightarrow> 'a \<Rightarrow> jsnum) \<Rightarrow> 'a \<Rightarrow> 'a list \<Rightarrow> 'a list" where
  "insert_sorted cmp x [] = [x]"
| "insert_sorted cmp x (y # ys) =
     (if is_negative (cmp y x) then y # insert_sorted cmp x ys else x # y # ys)"

fun js_sort :: "('a \<Rightarrow> 'a \<Rightarrow> jsnum) \<Rightarrow> 'a list \<Rightarrow> 'a list" where
  "js_sort cmp [] = []"
| "js_sort cmp (x # xs) = insert_sorted cmp x (js_sort cmp xs)"

text \<open>\<open>(a, b) => Number(a.send_time) - Number(b.send_time)\<close>\<close>

definition by_send_time :: "raw_message \<Rightarrow> raw_message \<Rightarrow> jsnum" where
  "by_send_time a b = js_sub (send_key a) (send_key b)"

text \<open>
  \<open>xs.slice(start)\<close> for an integral \<open>start\<close>: a negative start counts from the end and
  stops at the first element.
\<close>

definition slice_from :: "int \<Rightarrow> 'a list \<Rightarrow> 'a list" where
  "slice_from start xs =
     (let len = int (length xs);
          k = (if start < 0 then max (len + start) 0 else min start len)
      in drop (nat k) xs)"

text \<open>\<open>Math.max(1, Math.min(100, parseIntSafe(options.limit, 30)))\<close>\<close>

definition effective_limit :: "(string \<Rightarrow> jsnum option) \<Rightarrow> options \<Rightarrow> rat" where
  "effective_limit numParse opts = max 1 (min 100 (parseIntSafe numParse (opts ''limit'') 30))"

text \<open>\<open>.map(f)\<close> with an \<open>f\<close> that can throw: the first exception ends the loop.\<close>

fun map_throwing :: "('a \<Rightarrow> error + 'b) \<Rightarrow> 'a list \<Rightarrow> error + 'b list" where
  "map_throwing f [] = Inr []"
| "map_throwing f (x # xs) =
     (case f x of
        Inl e \<Rightarrow> Inl e
      | Inr y \<Rightarrow> (case map_throwing f xs of Inl e \<Rightarrow> Inl e | Inr ys \<Rightarrow> Inr (y # ys)))"

text \<open>
  The chain from the fetched payload to the messages that \<open>runRead\<close> prints.
\<close>

definition select_messages ::
  "rat \<Rightarrow> jsnum option \<Rightarrow> jsnum option \<Rightarrow> string \<Rightarrow> payload \<Rightarrow> raw_message list" where
  "select_messages limit since until contains raw =
     slice_from (to_integer (- limit))
       (js_sort by_send_time
         (contains_filter contains
           (until_filter until
             (since_filter since (array_or_empty raw)))))"

text \<open>\<open>options.contains ? String(options.contains) : ''''\<close>\<close>

definition contains_option :: "options \<Rightarrow> string" where
  "contains_option opts =
     (case opts ''contains'' of
        None \<Rightarrow> []
      | Some c \<Rightarrow> if truthy (Some c) then String_of c else [])"

text \<open>
  \<open>runRead(client, options)\<close>.  The client's \<open>getRoomMessages(roomId, {force})\<close> is the
  argument \<open>getRoomMessages\<close>; its failure propagates.  The result is the sequence
  \<open>filtered\<close> that the function hands to its printers.
\<close>

definition runRead ::
  "(string \<Rightarrow> jsnum option) \<Rightarrow> (string \<Rightarrow> int option) \<Rightarrow> (argval \<Rightarrow> nat \<Rightarrow> error + payload) \<Rightarrow>
   options \<Rightarrow> error + canonical_message list" where
  "runRead numParse dateParse getRoomMessages opts =
     (case opts ''room'' of
        None \<Rightarrow> Inl (Error ''read requires --room <roomId>.'')
      | Some room \<Rightarrow>
          if \<not> truthy (Some room) then Inl (Error ''read requires --room <roomId>.'')
          else
            let limit = effective_limit numParse opts
            in case parseUnixTime dateParse (opts ''since'') ''--since'' of
                 Inl e \<Rightarrow> Inl e
               | Inr since \<Rightarrow>
                   (case parseUnixTime dateParse (opts ''until'') ''--until'' of
                      Inl e \<Rightarrow> Inl e
                    | Inr until \<Rightarrow>
                        let contains = contains_option opts;
                            force = parseBool01 (opts ''force'') 1;
                            stripTags = truthy (opts ''strip-tags'')
                        in case getRoomMessages room force of
                             Inl e \<Rightarrow> Inl e
                           | Inr raw \<Rightarrow>
                               map_throwing (\<lambda>msg. normalizeReadMessage room msg stripTags)
                                 (select_messages limit since until contains raw)))"

section \<open>Body composer\<close>

text \<open>\<open>s.split(c)\<close> on a one-character separator.\<close>

fun split_on :: "char \<Rightarrow> string \<Rightarrow> string list" where
  "split_on c [] = [[]]"
| "split_on c (x # xs) =
     (if x = c then [] # split_on c xs
      else (case split_on c xs of [] \<Rightarrow> [[x]] | w # ws \<Rightarrow> (x # w) # ws))"

text \<open>\<open>lines.join('\n')\<close>\<close>

fun join_lines :: "string list \<Rightarrow> string" where
  "join_lines [] = []"
| "join_lines [l] = l"
| "join_lines (l # k # ls) = l @ [CHR 0x0A] @ join_lines (k # ls)"

text \<open>The ids of \<open>--to\<close>: split on commas, trimmed, the empty ones dropped.\<close>

definition to_ids :: "argval option \<Rightarrow> string list" where
  "to_ids v =
     (case v of
        None \<Rightarrow> []
      | Some t \<Rightarrow>
          if truthy (Some t)
          then filter (\<lambda>i. i \<noteq> []) (map trim (split_on (CHR '','') (String_of t)))
          else [])"

text \<open>
  \<open>buildChatworkBody(roomId, messageBody, options)\<close>.  \<open>lines\<close> is the array the
  function pushes to; the loop over the ids is the fold.
\<close>

definition buildChatworkBody :: "argval \<Rightarrow> string \<Rightarrow> options \<Rightarrow> error + string" where
  "buildChatworkBody room messageBody opts =
     (let lines = foldl (\<lambda>ls i. ls @ [''[To:'' @ i @ '']'']) [] (to_ids (opts ''to''));
          replyAccount = opts ''reply-account'';
          replyMessage = opts ''reply-message''
      in if (truthy replyAccount \<and> \<not> truthy replyMessage) \<or>
            (\<not> truthy replyAccount \<and> truthy replyMessage)
         then Inl (Error ''Use --reply-account and --reply-message together.'')
         else
           let lines' =
                 (if truthy replyAccount \<and> truthy replyMessage
                  then lines @ [''[rp aid='' @ String_of (the replyAccount) @ '' to='' @
                                String_of room @ ''-'' @ String_of (the replyMessage) @ '']'']
                  else lines)
           in Inr (join_lines (lines' @ [messageBody])))"

text \<open>
  \<open>runWrite(client, options)\<close>.  \<open>messageBody\<close> is the text that \<open>resolveWriteMessage\<close>
  resolved (from \<open>--message\<close>, the file or the standard input).  The client's
  \<open>postRoomMessage\<close> is the argument \<open>post\<close>.  The first component of the result lists
  the calls made to it, the second is what the function returns or throws.
\<close>

datatype write_result = Preview string | Sent string

definition runWrite ::
  "(argval \<Rightarrow> string \<Rightarrow> error + string) \<Rightarrow> string \<Rightarrow> options \<Rightarrow>
   (argval \<times> string) list \<times> (error + write_result)" where
  "runWrite post messageBody opts =
     (case opts ''room'' of
        None \<Rightarrow> ([], Inl (Error ''write requires --room <roomId>.''))
      | Some room \<Rightarrow>
          if \<not> truthy (Some room) then ([], Inl (Error ''write requires --room <roomId>.''))
          else if messageBody = []
          then ([], Inl (Error ''write requires message text via --message, --file, or stdin.''))
          else
            (case buildChatworkBody room messageBody opts of
               Inl e \<Rightarrow> ([], Inl e)
             | Inr b \<Rightarrow>
                 if truthy (opts ''dry-run'') then ([], Inr (Preview b))
                 else ([(room, b)],
                       case post room b of Inl e \<Rightarrow> Inl e | Inr r \<Rightarrow> Inr (Sent r))))"

section \<open>Notions used in the statements\<close>

text \<open>The join of pieces by a separator.\<close>

fun join_with :: "char \<Rightarrow> string list \<Rightarrow> string" where
  "join_with c [] = []"
| "join_with c [w] = w"
| "join_with c (w # v # ws) = w @ [c] @ join_with c (v # ws)"

text \<open>The time window: each bound that is supplied holds, inclusively.\<close>

definition in_window :: "jsnum option \<Rightarrow> jsnum option \<Rightarrow> jsnum \<Rightarrow> bool" where
  "in_window since until t =
     ((case since of None \<Rightarrow> True | Some s \<Rightarrow> js_le s t) \<and>
      (case until of None \<Rightarrow> True | Some u \<Rightarrow> js_le t u))"

text \<open>The records that pass the three filters, in the order of the payload.\<close>

definition matching ::
  "jsnum option \<Rightarrow> jsnum option \<Rightarrow> string \<Rightarrow> payload \<Rightarrow> raw_message list" where
  "matching since until contains raw =
     contains_filter contains (until_filter until (since_filter since (array_or_empty raw)))"

text \<open>The order of two raw records by the number the comparator reads.\<close>

definition key_le :: "raw_message \<Rightarrow> raw_message \<Rightarrow> bool" where
  "key_le a b = js_le (send_key a) (send_key b)"

text \<open>A number that is an integer and not negative.\<close>

fun is_nonneg_integer :: "jsnum \<Rightarrow> bool" where
  "is_nonneg_integer (Fin r) = (0 \<le> r \<and> r = of_int \<lfloor>r\<rfloor>)"
| "is_nonneg_integer v = False"

text \<open>
  A read invocation that passes its validation, with the parsed bounds \<open>since\<close> and
  \<open>until\<close>, and whose fetch resolves to the payload \<open>raw\<close>.
\<close>

definition read_request ::
  "(string \<Rightarrow> int option) \<Rightarrow> (argval \<Rightarrow> nat \<Rightarrow> error + payload) \<Rightarrow> options \<Rightarrow>
   argval \<Rightarrow> jsnum option \<Rightarrow> jsnum option \<Rightarrow> payload \<Rightarrow> bool" where
  "read_request dateParse getRoomMessages opts room since until raw =
     (opts ''room'' = Some room \<and> truthy (Some room) \<and>
      parseUnixTime dateParse (opts ''since'') ''--since'' = Inr since \<and>
      parseUnixTime dateParse (opts ''until'') ''--until'' = Inr until \<and>
      getRoomMessages room (parseBool01 (opts ''force'') 1) = Inr raw)"

text \<open>Sample raw records: one with a body and a send time, one without a send time.\<close>

definition message_at :: "string \<Rightarrow> rat \<Rightarrow> string \<Rightarrow> raw_message" where
  "message_at i t b =
     \<lparr> message_id = Some i, account = None, msg_body = Some b, send_time = Some (Num (Fin t)) \<rparr>"

definition message_undated :: "string \<Rightarrow> string \<Rightarrow> raw_message" where
  "message_undated i b =
     \<lparr> message_id = Some i, account = None, msg_body = Some b, send_time = None \<rparr>"

text \<open>A client whose post is accepted, with a given message id.\<close>

definition accept :: "string \<Rightarrow> argval \<Rightarrow> string \<Rightarrow> error + string" where
  "accept r room b = Inr r"

text \<open>A client whose fetch resolves to a given payload, whatever the room.\<close>

definition serve :: "payload \<Rightarrow> argval \<Rightarrow> nat \<Rightarrow> error + payload" where
  "serve p room force = Inr p"

section \<open>Facts about the text operations\<close>

text \<open>
  The pieces of \<open>split_on\<close> joined by the separator give the text back, and no piece
  holds the separator: they are the entries of the list.
\<close>

lemma join_lines_join_with: "join_lines ls = join_with (CHR 0x0A) ls"
  by (induction ls rule: join_lines.induct) simp_all

lemma split_on_nonempty: "split_on c s \<noteq> []"
  by (induction s) (auto split: list.splits)

lemma split_on_join: "join_with c (split_on c s) = s"
proof (induction s)
  case Nil
  then show ?case by simp
next
  case (Cons x xs)
  obtain w ws where e: "split_on c xs = w # ws"
    using split_on_nonempty [of c xs] by (cases "split_on c xs") auto
  show ?case using Cons.IH e by (cases ws) auto
qed

lemma split_on_pieces: "w \<in> set (split_on c s) \<Longrightarrow> c \<notin> set w"
proof (induction s arbitrary: w)
  case Nil
  then show ?case by simp
next
  case (Cons x xs)
  obtain v vs where e: "split_on c xs = v # vs"
    using split_on_nonempty [of c xs] by (cases "split_on c xs") auto
  show ?case
  proof (cases "x = c")
    case True
    then show ?thesis using Cons by auto
  next
    case False
    then have "w = x # v \<or> w \<in> set vs" using Cons.prems e by auto
    then show ?thesis using False Cons.IH e by auto
  qed
qed

text \<open>
  The matcher of \<open>[To:digits]\<close> accepts exactly the texts that start with such a tag, and
  returns what follows it.
\<close>

lemma lit_Some: "lit p s = Some r \<longleftrightarrow> s = p @ r"
proof
  assume "lit p s = Some r"
  then have "prefix p s" and r: "r = drop (length p) s"
    by (simp_all add: lit_def split: if_splits)
  then obtain z where "s = p @ z" by (auto simp: prefix_def)
  then show "s = p @ r" using r by simp
next
  assume "s = p @ r"
  then show "lit p s = Some r" by (simp add: lit_def)
qed

lemma digits1_Some:
  "digits1 s = Some r \<Longrightarrow> \<exists>d. d \<noteq> [] \<and> list_all is_digit d \<and> s = d @ r"
proof -
  assume "digits1 s = Some r"
  then have n: "takeWhile is_digit s \<noteq> []" and r: "r = dropWhile is_digit s"
    by (simp_all add: digits1_def split: if_splits)
  have a: "list_all is_digit (takeWhile is_digit s)"
    by (auto simp: list_all_iff dest: set_takeWhileD)
  have "takeWhile is_digit s @ r = s"
    unfolding r by (rule takeWhile_dropWhile_id)
  then have "takeWhile is_digit s \<noteq> [] \<and> list_all is_digit (takeWhile is_digit s) \<and>
      s = takeWhile is_digit s @ r"
    using n a by (intro conjI) (rule n, rule a, rule sym)
  then show ?thesis by (rule exI)
qed

lemma match_to_Some:
  "match_to s = Some r \<Longrightarrow> \<exists>d. d \<noteq> [] \<and> list_all is_digit d \<and> s = ''[To:'' @ d @ '']'' @ r"
proof -
  assume m: "match_to s = Some r"
  then obtain b where ab: "Option.bind (lit ''[To:'' s) digits1 = Some b"
    and c: "lit '']'' b = Some r"
    unfolding match_to_def by (cases "Option.bind (lit ''[To:'' s) digits1") simp_all
  from ab obtain a where a: "lit ''[To:'' s = Some a" and b: "digits1 a = Some b"
    by (cases "lit ''[To:'' s") simp_all
  from b obtain d where d: "d \<noteq> []" "list_all is_digit d" "a = d @ b"
    using digits1_Some by blast
  have s: "s = ''[To:'' @ a" using a by (simp only: lit_Some)
  have r: "b = '']'' @ r" using c by (simp only: lit_Some)
  have "s = ''[To:'' @ d @ '']'' @ r"
    unfolding s d(3) r by (rule refl)
  then show ?thesis using d(1,2) by blast
qed

lemma match_to_complete:
  "d \<noteq> [] \<Longrightarrow> list_all is_digit d \<Longrightarrow> match_to (''[To:'' @ d @ '']'' @ r) = Some r"
proof -
  assume d: "d \<noteq> []" "list_all is_digit d"
  have nd: "\<not> is_digit (CHR '']'')" by (simp add: is_digit_def)
  have t: "takeWhile is_digit (d @ CHR '']'' # r) = d"
    using d(2) nd by (simp add: takeWhile_tail list_all_iff)
  have dr: "dropWhile is_digit (d @ CHR '']'' # r) = CHR '']'' # r"
    using d(2) nd by (simp add: dropWhile_append2 list_all_iff)
  show ?thesis using d(1) t dr
    by (simp add: match_to_def lit_def digits1_def)
qed

text \<open>\<open>trim\<close> removes a run of white space at each end.\<close>

lemma trim_decompose:
  "s = takeWhile is_space s @ trim s @ rev (takeWhile is_space (rev (dropWhile is_space s)))"
proof -
  let ?a = "dropWhile is_space s"
  have "rev (takeWhile is_space (rev ?a) @ dropWhile is_space (rev ?a)) = rev (rev ?a)"
    by (simp only: takeWhile_dropWhile_id)
  then have "?a = trim s @ rev (takeWhile is_space (rev ?a))"
    by (simp only: rev_append rev_rev_ident trim_def)
  moreover have "s = takeWhile is_space s @ ?a" by simp
  ultimately show ?thesis by metis
qed

lemma strip_sample:
  "stripCommonChatworkTags ''[To:123] hello [info]x[/info] [rp aid=1 to=2-3] [To:] [To:9''
     = ''hello x  [To:] [To:9''"
  by (simp add: stripCommonChatworkTags_def match_to_def match_rp_def match_block_def
      lit_def digits1_def is_digit_def trim_def is_space_def)

section \<open>Credential resolver: precedence\<close>

text \<open>
  C4.  Whatever the explicit token, the two environment variables and the two keys of
  the file map are, \<open>resolveToken\<close> returns the first of them, in that order, that is
  not empty (a truthy value: a non-empty string, or \<open>true\<close> for a bare \<open>--token\<close>).
  When none is, it returns the last operand of the chain, which is then the empty
  string or \<open>undefined\<close>: no token, as the caller's test \<open>!token\<close> reads it.  So the
  result is non-empty exactly when one of the five sources is.
\<close>

theorem resolveToken_first_nonempty:
  "resolveToken opts processEnv envFromFile =
     (case List.find truthy (token_sources opts processEnv envFromFile) of
        Some v \<Rightarrow> v
      | None \<Rightarrow> map_option Str (envFromFile ''CHATWORK_TOKEN''))
   \<and> truthy (resolveToken opts processEnv envFromFile) =
       list_ex truthy (token_sources opts processEnv envFromFile)
   \<and> (\<not> list_ex truthy (token_sources opts processEnv envFromFile) \<longrightarrow>
        resolveToken opts processEnv envFromFile = None \<or>
        resolveToken opts processEnv envFromFile = Some (Str []))"
proof -
  have chain: "resolveToken opts processEnv envFromFile =
     (case List.find truthy (token_sources opts processEnv envFromFile) of
        Some v \<Rightarrow> v
      | None \<Rightarrow> map_option Str (envFromFile ''CHATWORK_TOKEN''))"
    unfolding resolveToken_def token_sources_def js_or_def by simp
  have some: "truthy (resolveToken opts processEnv envFromFile) =
       list_ex truthy (token_sources opts processEnv envFromFile)"
    unfolding resolveToken_def token_sources_def js_or_def by simp
  have none: "resolveToken opts processEnv envFromFile = None \<or>
        resolveToken opts processEnv envFromFile = Some (Str [])"
    if "\<not> list_ex truthy (token_sources opts processEnv envFromFile)"
  proof -
    have "\<not> truthy (resolveToken opts processEnv envFromFile)" using that some by simp
    then show ?thesis
      by (cases "resolveToken opts processEnv envFromFile" rule: truthy.cases) simp_all
  qed
  show ?thesis using chain some none by blast
qed

theorem resolveToken_first_nonempty_witness:
  "resolveToken [''token'' \<mapsto> Str ''A''] [''CHATWORK_API_TOKEN'' \<mapsto> ''B'', ''CHATWORK_TOKEN'' \<mapsto> ''C'']
       [''CHATWORK_API_TOKEN'' \<mapsto> ''D'', ''CHATWORK_TOKEN'' \<mapsto> ''E''] = Some (Str ''A'')
   \<and> resolveToken Map.empty [''CHATWORK_API_TOKEN'' \<mapsto> ''B'', ''CHATWORK_TOKEN'' \<mapsto> ''C'']
       [''CHATWORK_API_TOKEN'' \<mapsto> ''D'', ''CHATWORK_TOKEN'' \<mapsto> ''E''] = Some (Str ''B'')
   \<and> resolveToken Map.empty [''CHATWORK_TOKEN'' \<mapsto> ''C'']
       [''CHATWORK_API_TOKEN'' \<mapsto> ''D'', ''CHATWORK_TOKEN'' \<mapsto> ''E''] = Some (Str ''C'')
   \<and> resolveToken Map.empty Map.empty
       [''CHATWORK_API_TOKEN'' \<mapsto> ''D'', ''CHATWORK_TOKEN'' \<mapsto> ''E''] = Some (Str ''D'')
   \<and> resolveToken Map.empty Map.empty [''CHATWORK_TOKEN'' \<mapsto> ''E''] = Some (Str ''E'')
   \<and> resolveToken [''token'' \<mapsto> Str ''''] [''CHATWORK_API_TOKEN'' \<mapsto> ''''] Map.empty = None
   \<and> \<not> truthy (resolveToken Map.empty Map.empty [''CHATWORK_TOKEN'' \<mapsto> ''''])"
  using resolveToken_first_nonempty [of "[''token'' \<mapsto> Str ''A'']"
          "[''CHATWORK_API_TOKEN'' \<mapsto> ''B'', ''CHATWORK_TOKEN'' \<mapsto> ''C'']"
          "[''CHATWORK_API_TOKEN'' \<mapsto> ''D'', ''CHATWORK_TOKEN'' \<mapsto> ''E'']"]
        resolveToken_first_nonempty [of Map.empty
          "[''CHATWORK_API_TOKEN'' \<mapsto> ''B'', ''CHATWORK_TOKEN'' \<mapsto> ''C'']"
          "[''CHATWORK_API_TOKEN'' \<mapsto> ''D'', ''CHATWORK_TOKEN'' \<mapsto> ''E'']"]
        resolveToken_first_nonempty [of Map.empty "[''CHATWORK_TOKEN'' \<mapsto> ''C'']"
          "[''CHATWORK_API_TOKEN'' \<mapsto> ''D'', ''CHATWORK_TOKEN'' \<mapsto> ''E'']"]
        resolveToken_first_nonempty [of Map.empty Map.empty
          "[''CHATWORK_API_TOKEN'' \<mapsto> ''D'', ''CHATWORK_TOKEN'' \<mapsto> ''E'']"]
        resolveToken_first_nonempty [of Map.empty Map.empty "[''CHATWORK_TOKEN'' \<mapsto> ''E'']"]
        resolveToken_first_nonempty [of "[''token'' \<mapsto> Str '''']"
          "[''CHATWORK_API_TOKEN'' \<mapsto> '''']" Map.empty]
        resolveToken_first_nonempty [of Map.empty Map.empty "[''CHATWORK_TOKEN'' \<mapsto> '''']"]
  by (simp add: token_sources_def)

section \<open>Body composer: layout and the reply pair\<close>

text \<open>
  Lines joined by line feeds are each line followed by a line feed, but the last; the
  pieces of a split make up the text in the same way; and \<open>trim\<close> leaves no white space
  at either end.
\<close>

lemma join_with_concat:
  "ws \<noteq> [] \<Longrightarrow> join_with c ws = concat (map (\<lambda>w. w @ [c]) (butlast ws)) @ last ws"
  by (induction ws rule: join_with.induct) simp_all

lemma join_lines_snoc:
  "join_lines (ls @ [m]) = concat (map (\<lambda>l. l @ [CHR 0x0A]) ls) @ m"
  using join_with_concat [of "ls @ [m]" "CHR 0x0A"] by (simp add: join_lines_join_with)

lemma split_on_concat:
  "concat (map (\<lambda>w. w @ [c]) (butlast (split_on c s))) @ last (split_on c s) = s"
  using join_with_concat [OF split_on_nonempty, of c c s] by (simp add: split_on_join)

lemma trim_ends:
  "\<exists>a b. s = a @ trim s @ b \<and> list_all is_space a \<and> list_all is_space b \<and>
         (trim s = [] \<or> \<not> is_space (hd (trim s)) \<and> \<not> is_space (last (trim s)))"
proof -
  let ?d = "dropWhile is_space s"
  let ?a = "takeWhile is_space s"
  let ?b = "rev (takeWhile is_space (rev ?d))"
  have s: "s = ?a @ trim s @ ?b" by (rule trim_decompose)
  have a: "list_all is_space ?a" by (auto simp: list_all_iff dest: set_takeWhileD)
  have b: "list_all is_space ?b" by (auto simp: list_all_iff dest: set_takeWhileD)
  have e: "\<not> is_space (hd (trim s)) \<and> \<not> is_space (last (trim s))" if n: "trim s \<noteq> []"
  proof -
    have r: "dropWhile is_space (rev ?d) \<noteq> []" using n by (simp add: trim_def)
    then have "\<not> is_space (hd (dropWhile is_space (rev ?d)))" by (rule hd_dropWhile)
    moreover have "last (trim s) = hd (dropWhile is_space (rev ?d))"
      using r by (simp add: trim_def last_rev)
    ultimately have l: "\<not> is_space (last (trim s))" by simp
    have d: "?d = trim s @ ?b"
    proof -
      have "rev (takeWhile is_space (rev ?d) @ dropWhile is_space (rev ?d)) = rev (rev ?d)"
        by (simp only: takeWhile_dropWhile_id)
      then show ?thesis by (simp only: rev_append rev_rev_ident trim_def)
    qed
    have "?d \<noteq> []"
    proof
      assume "?d = []"
      then have "trim s = []" by (simp only: trim_def rev.simps dropWhile.simps)
      then show False using n by simp
    qed
    then have "\<not> is_space (hd ?d)" by (rule hd_dropWhile)
    moreover have "hd ?d = hd (trim s)" using n by (subst d) simp
    ultimately show ?thesis using l by simp
  qed
  show ?thesis using s a b e by blast
qed

lemma foldl_push: "foldl (\<lambda>ls i. ls @ [f i]) acc xs = acc @ map f xs"
  by (induction xs arbitrary: acc) simp_all

text \<open>
  C5.  When the two reply options are both supplied or both not (supplied: a truthy
  value), \<open>buildChatworkBody\<close> succeeds and its text is, each followed by a line feed:
  one \<open>[To:id]\<close> line for each id of \<open>to_ids\<close>, in order; then, exactly when both reply
  options are supplied, the one line \<open>[rp aid=ACCOUNT to=ROOM-MESSAGE]\<close>; and after
  these the message text, which ends the body.  The ids are the entries of the
  \<open>--to\<close> text, trimmed, the empty ones dropped, in their order and with their
  repetitions; the entries are the pieces between the commas (none holds a comma, and
  with a comma after each but the last they make up the text); trimming an entry takes
  a run of white space off each end and leaves none there.  A bare \<open>--to\<close> reads as the
  one id \<open>true\<close>, and without \<open>--to\<close> there is no id.
\<close>

theorem buildChatworkBody_layout:
  assumes "truthy (opts ''reply-account'') = truthy (opts ''reply-message'')"
  shows "buildChatworkBody room messageBody opts =
     Inr (concat (map (\<lambda>l. l @ [CHR 0x0A])
            (map (\<lambda>i. ''[To:'' @ i @ '']'') (to_ids (opts ''to''))
             @ (if truthy (opts ''reply-account'')
                then [''[rp aid='' @ String_of (the (opts ''reply-account'')) @ '' to='' @
                      String_of room @ ''-'' @ String_of (the (opts ''reply-message'')) @ '']'']
                else [])))
          @ messageBody)
     \<and> (\<forall>t. opts ''to'' = Some (Str t) \<longrightarrow>
           to_ids (opts ''to'') =
             filter (\<lambda>i. i \<noteq> []) (map trim (split_on (CHR '','') t))
           \<and> split_on (CHR '','') t \<noteq> []
           \<and> (\<forall>w\<in>set (split_on (CHR '','') t). CHR '','' \<notin> set w)
           \<and> concat (map (\<lambda>w. w @ '','') (butlast (split_on (CHR '','') t)))
               @ last (split_on (CHR '','') t) = t
           \<and> (\<forall>w\<in>set (split_on (CHR '','') t).
                \<exists>a b. w = a @ trim w @ b \<and> list_all is_space a \<and> list_all is_space b \<and>
                      (trim w = [] \<or> \<not> is_space (hd (trim w)) \<and> \<not> is_space (last (trim w)))))
     \<and> (opts ''to'' = Some Flag \<longrightarrow> to_ids (opts ''to'') = [''true''])
     \<and> (\<not> truthy (opts ''to'') \<longrightarrow> to_ids (opts ''to'') = [])"
proof -
  have layout: "buildChatworkBody room messageBody opts =
     Inr (concat (map (\<lambda>l. l @ [CHR 0x0A])
            (map (\<lambda>i. ''[To:'' @ i @ '']'') (to_ids (opts ''to''))
             @ (if truthy (opts ''reply-account'')
                then [''[rp aid='' @ String_of (the (opts ''reply-account'')) @ '' to='' @
                      String_of room @ ''-'' @ String_of (the (opts ''reply-message'')) @ '']'']
                else [])))
          @ messageBody)"
    using assms by (simp add: buildChatworkBody_def Let_def foldl_push join_lines_snoc)
  have entries: "to_ids (opts ''to'') =
             filter (\<lambda>i. i \<noteq> []) (map trim (split_on (CHR '','') t))"
    if "opts ''to'' = Some (Str t)" for t
    using that by (cases "t = []") (simp_all add: to_ids_def trim_def)
  have pieces: "split_on (CHR '','') t \<noteq> []
           \<and> (\<forall>w\<in>set (split_on (CHR '','') t). CHR '','' \<notin> set w)
           \<and> concat (map (\<lambda>w. w @ '','') (butlast (split_on (CHR '','') t)))
               @ last (split_on (CHR '','') t) = t" for t
    using split_on_nonempty [of "CHR '',''" t] split_on_pieces [of _ "CHR '',''" t]
      split_on_concat [of "CHR '',''" t]
    by blast
  have trims: "\<forall>w\<in>set (split_on (CHR '','') t).
                \<exists>a b. w = a @ trim w @ b \<and> list_all is_space a \<and> list_all is_space b \<and>
                      (trim w = [] \<or> \<not> is_space (hd (trim w)) \<and> \<not> is_space (last (trim w)))"
    for t
    using trim_ends by blast
  have flag: "to_ids (opts ''to'') = [''true'']" if "opts ''to'' = Some Flag"
    using that
    by (simp add: to_ids_def trim_def is_space_def)
  have none: "to_ids (opts ''to'') = []" if "\<not> truthy (opts ''to'')"
    using that by (cases "opts ''to''") (simp_all add: to_ids_def)
  show ?thesis using layout entries pieces trims flag none by blast
qed

theorem buildChatworkBody_layout_witness:
  "buildChatworkBody (Str ''42'') ''hello'' [''to'' \<mapsto> Str ''1,2, 3''] =
     Inr (''[To:1]'' @ [CHR 0x0A] @ ''[To:2]'' @ [CHR 0x0A] @ ''[To:3]'' @ [CHR 0x0A] @ ''hello'')
   \<and> buildChatworkBody (Str ''42'') ''hello''
       [''to'' \<mapsto> Str ''7, ,7'', ''reply-account'' \<mapsto> Str ''5'', ''reply-message'' \<mapsto> Str ''99''] =
     Inr (''[To:7]'' @ [CHR 0x0A] @ ''[To:7]'' @ [CHR 0x0A] @ ''[rp aid=5 to=42-99]'' @ [CHR 0x0A] @
          ''hello'')
   \<and> buildChatworkBody (Str ''42'') ''hello''
       [''to'' \<mapsto> Str (''8'' @ [CHR 0x09] @ '','' @ [CHR 0xA0] @ ''9'' @ [CHR 0x0D])] =
     Inr (''[To:8]'' @ [CHR 0x0A] @ ''[To:9]'' @ [CHR 0x0A] @ ''hello'')
   \<and> buildChatworkBody (Str ''42'') ''hello'' [''room'' \<mapsto> Str ''42''] = Inr ''hello''"
  using buildChatworkBody_layout [of "[''to'' \<mapsto> Str ''1,2, 3'']" "Str ''42''" "''hello''"]
        buildChatworkBody_layout [of
          "[''to'' \<mapsto> Str ''7, ,7'', ''reply-account'' \<mapsto> Str ''5'', ''reply-message'' \<mapsto> Str ''99'']"
          "Str ''42''" "''hello''"]
        buildChatworkBody_layout [of
          "[''to'' \<mapsto> Str (''8'' @ [CHR 0x09] @ '','' @ [CHR 0xA0] @ ''9'' @ [CHR 0x0D])]"
          "Str ''42''" "''hello''"]
        buildChatworkBody_layout [of "[''room'' \<mapsto> Str ''42'']" "Str ''42''" "''hello''"]
  by (simp add: to_ids_def trim_def is_space_def)

text \<open>
  C6.  \<open>buildChatworkBody\<close> fails, with the error that names both reply options, exactly
  when one of \<open>--reply-account\<close> and \<open>--reply-message\<close> is supplied (truthy) and the
  other is not; it returns a body exactly when both or neither are.  The function
  takes no client, and \<open>runWrite\<close>, which calls it before it posts, makes no call to
  the client when the pair is not matched: with a room and a message text it ends with
  that error.
\<close>

theorem buildChatworkBody_reply_pair:
  "(buildChatworkBody room messageBody opts =
      Inl (Error ''Use --reply-account and --reply-message together.''))
     = (truthy (opts ''reply-account'') \<noteq> truthy (opts ''reply-message''))
   \<and> (\<exists>b. buildChatworkBody room messageBody opts = Inr b)
     = (truthy (opts ''reply-account'') = truthy (opts ''reply-message''))
   \<and> (truthy (opts ''reply-account'') \<noteq> truthy (opts ''reply-message'') \<longrightarrow>
        fst (runWrite post messageBody opts) = [] \<and>
        (truthy (opts ''room'') \<and> messageBody \<noteq> [] \<longrightarrow>
           snd (runWrite post messageBody opts) =
             Inl (Error ''Use --reply-account and --reply-message together.'')))"
proof -
  have a: "(buildChatworkBody room messageBody opts =
      Inl (Error ''Use --reply-account and --reply-message together.''))
     = (truthy (opts ''reply-account'') \<noteq> truthy (opts ''reply-message''))" for room
    by (auto simp: buildChatworkBody_def Let_def)
  have b: "(\<exists>b. buildChatworkBody room messageBody opts = Inr b)
     = (truthy (opts ''reply-account'') = truthy (opts ''reply-message''))"
    by (auto simp: buildChatworkBody_def Let_def)
  have c: "fst (runWrite post messageBody opts) = [] \<and>
        (truthy (opts ''room'') \<and> messageBody \<noteq> [] \<longrightarrow>
           snd (runWrite post messageBody opts) =
             Inl (Error ''Use --reply-account and --reply-message together.''))"
    if "truthy (opts ''reply-account'') \<noteq> truthy (opts ''reply-message'')"
    using that a by (cases "opts ''room''") (simp_all add: runWrite_def)
  show ?thesis using a b c by blast
qed

theorem buildChatworkBody_reply_pair_witness:
  "buildChatworkBody (Str ''42'') ''hello'' [''reply-account'' \<mapsto> Str ''5''] =
     Inl (Error ''Use --reply-account and --reply-message together.'')
   \<and> buildChatworkBody (Str ''42'') ''hello'' [''reply-message'' \<mapsto> Str ''99''] =
     Inl (Error ''Use --reply-account and --reply-message together.'')
   \<and> (\<exists>b. buildChatworkBody (Str ''42'') ''hello'' Map.empty = Inr b)
   \<and> (\<exists>b. buildChatworkBody (Str ''42'') ''hello''
         [''reply-account'' \<mapsto> Str ''5'', ''reply-message'' \<mapsto> Str ''99''] = Inr b)
   \<and> runWrite (accept ''1'') ''hello'' [''room'' \<mapsto> Str ''42'', ''reply-account'' \<mapsto> Str ''5''] =
       ([], Inl (Error ''Use --reply-account and --reply-message together.''))"
proof -
  have w: "fst (runWrite (accept ''1'') ''hello''
              [''room'' \<mapsto> Str ''42'', ''reply-account'' \<mapsto> Str ''5'']) = []
     \<and> snd (runWrite (accept ''1'') ''hello''
              [''room'' \<mapsto> Str ''42'', ''reply-account'' \<mapsto> Str ''5'']) =
         Inl (Error ''Use --reply-account and --reply-message together.'')"
    using buildChatworkBody_reply_pair [of "Str ''42''" "''hello''"
        "[''room'' \<mapsto> Str ''42'', ''reply-account'' \<mapsto> Str ''5'']" "accept ''1''"]
    by simp
  show ?thesis
    using buildChatworkBody_reply_pair [of "Str ''42''" "''hello''"
            "[''reply-account'' \<mapsto> Str ''5'']" "accept ''1''"]
          buildChatworkBody_reply_pair [of "Str ''42''" "''hello''"
            "[''reply-message'' \<mapsto> Str ''99'']" "accept ''1''"]
          buildChatworkBody_reply_pair [of "Str ''42''" "''hello''" Map.empty "accept ''1''"]
          buildChatworkBody_reply_pair [of "Str ''42''" "''hello''"
            "[''reply-account'' \<mapsto> Str ''5'', ''reply-message'' \<mapsto> Str ''99'']" "accept ''1''"]
          w
    by (simp add: prod_eq_iff)
qed

section \<open>Time expression parser: the four cases\<close>

text \<open>
  C8, as the code has it.  \<open>parseUnixTime\<close> returns no constraint for an absent or empty
  expression.  For a string of decimal digits it returns \<open>Number\<close> of the string: the
  double nearest to the integer written, which is that integer whenever it is below
  \<open>2 ^ 53\<close>.  For any other expression that \<open>Date.parse\<close> accepts, with the time value
  \<open>ms\<close>, it returns \<open>ms / 1000\<close> cut to whole seconds by \<open>Math.floor\<close>.  It fails exactly
  when the expression is not empty, not all digits, and \<open>Date.parse\<close> rejects it; the
  error is \<open>Invalid OPTION: EXPRESSION\<close>.
\<close>

theorem parseUnixTime_cases:
  "parseUnixTime dateParse None optionName = Inr None
   \<and> parseUnixTime dateParse (Some (Str [])) optionName = Inr None
   \<and> (all_digits s \<longrightarrow>
        parseUnixTime dateParse (Some (Str s)) optionName = Inr (Some (round_double (dec_value s))))
   \<and> (all_digits s \<and> dec_value s < 2 ^ 53 \<longrightarrow>
        parseUnixTime dateParse (Some (Str s)) optionName = Inr (Some (Fin (of_nat (dec_value s)))))
   \<and> (v \<noteq> Str [] \<and> \<not> all_digits (String_of v) \<and> dateParse (String_of v) = Some ms \<longrightarrow>
        parseUnixTime dateParse (Some v) optionName = Inr (Some (Fin (of_int (ms div 1000)))))
   \<and> (\<exists>e. parseUnixTime dateParse input optionName = Inl e) =
       (\<exists>w. input = Some w \<and> w \<noteq> Str [] \<and> \<not> all_digits (String_of w) \<and>
            dateParse (String_of w) = None)
   \<and> (\<forall>e. parseUnixTime dateParse input optionName = Inl e \<longrightarrow>
         e = Error (''Invalid '' @ optionName @ '': '' @ String_of (the input)))"
proof -
  have digits_nonempty: "all_digits s \<Longrightarrow> s \<noteq> []" by (simp add: all_digits_def)
  have a: "all_digits s \<longrightarrow>
        parseUnixTime dateParse (Some (Str s)) optionName = Inr (Some (round_double (dec_value s)))"
    using digits_nonempty by (simp add: Number_digits_def)
  have b: "all_digits s \<and> dec_value s < 2 ^ 53 \<longrightarrow>
        parseUnixTime dateParse (Some (Str s)) optionName = Inr (Some (Fin (of_nat (dec_value s))))"
    using digits_nonempty by (simp add: Number_digits_def round_double_def)
  have c: "v \<noteq> Str [] \<and> \<not> all_digits (String_of v) \<and> dateParse (String_of v) = Some ms \<longrightarrow>
        parseUnixTime dateParse (Some v) optionName = Inr (Some (Fin (of_int (ms div 1000))))"
    by simp
  have d: "(\<exists>e. parseUnixTime dateParse input optionName = Inl e) =
       (\<exists>w. input = Some w \<and> w \<noteq> Str [] \<and> \<not> all_digits (String_of w) \<and>
            dateParse (String_of w) = None)"
    by (cases input) (auto split: option.splits)
  have e: "\<forall>e. parseUnixTime dateParse input optionName = Inl e \<longrightarrow>
         e = Error (''Invalid '' @ optionName @ '': '' @ String_of (the input))"
    by (cases input) (auto split: option.splits if_splits)
  show ?thesis using a b c d e by simp
qed

theorem parseUnixTime_cases_witness:
  "parseUnixTime [''2024-01-01'' \<mapsto> 1704067200000] (Some (Str ''1700000000'')) ''--since''
     = Inr (Some (Fin 1700000000))
   \<and> parseUnixTime [''2024-01-01'' \<mapsto> 1704067200000] (Some (Str ''2024-01-01'')) ''--since''
     = Inr (Some (Fin 1704067200))
   \<and> parseUnixTime [''2024-01-01'' \<mapsto> 1704067200000] (Some (Str ''yesterday'')) ''--until''
     = Inl (Error ''Invalid --until: yesterday'')
   \<and> parseUnixTime [''1969-12-31T23:59:59.500Z'' \<mapsto> - 500]
       (Some (Str ''1969-12-31T23:59:59.500Z'')) ''--until''
     = Inr (Some (Fin (- 1)))"
proof -
  have d: "all_digits ''1700000000''" "dec_value ''1700000000'' = 1700000000"
    by (simp_all add: all_digits_def is_digit_def dec_value_def)
  have n: "\<not> all_digits ''2024-01-01''" "\<not> all_digits ''yesterday''"
     "\<not> all_digits ''1969-12-31T23:59:59.500Z''"
    by (simp_all add: all_digits_def is_digit_def)
  show ?thesis
    using parseUnixTime_cases [of "[''2024-01-01'' \<mapsto> 1704067200000]" "''--since''"
            "''1700000000''" "Str ''2024-01-01''" 1704067200000 "Some (Str ''yesterday'')"]
          parseUnixTime_cases [of "[''2024-01-01'' \<mapsto> 1704067200000]" "''--until''"
            "''1700000000''" "Str ''2024-01-01''" 1704067200000 "Some (Str ''yesterday'')"]
          parseUnixTime_cases [of "[''1969-12-31T23:59:59.500Z'' \<mapsto> - 500]" "''--until''"
            "''1700000000''" "Str ''1969-12-31T23:59:59.500Z''" "- 500" None]
          d n
    by simp
qed

text \<open>
  C8 as stated fails on a long digit string: \<open>9007199254740993\<close> is \<open>2 ^ 53 + 1\<close>, which
  no double holds, and the parser returns \<open>9007199254740992\<close>, not the integer written.
\<close>

theorem parseUnixTime_literal_counterexample:
  "parseUnixTime Map.empty (Some (Str ''9007199254740993'')) ''--since''
     = Inr (Some (Fin 9007199254740992))
   \<and> dec_value ''9007199254740993'' = 9007199254740993"
proof -
  have v: "dec_value ''9007199254740993'' = 9007199254740993"
    by (simp add: dec_value_def)
  have r: "round_double 9007199254740993 = Fin 9007199254740992"
    by (simp add: round_double_def Let_def)
  have a: "all_digits ''9007199254740993''"
    by (simp add: all_digits_def is_digit_def)
  show ?thesis by (simp add: v r a Number_digits_def)
qed

section \<open>Rounding to a double: whole numbers\<close>

text \<open>
  Every integer below \<open>2 ^ 53\<close> in magnitude is a double, so rounding leaves it as it
  is.  A whole number of seconds times 1000 is such an integer throughout the range of
  dates.
\<close>

lemma bit_length_le: "n < 2 ^ m \<Longrightarrow> bit_length n \<le> m"
proof (induction m arbitrary: n)
  case 0
  then have "n = 0" by simp
  then show ?case by simp
next
  case (Suc m)
  show ?case
  proof (cases "n = 0")
    case True
    then show ?thesis by simp
  next
    case False
    have "n div 2 < 2 ^ m" using Suc.prems by auto
    then have "bit_length (n div 2) \<le> m" by (rule Suc.IH)
    then show ?thesis using False by (subst bit_length.simps) simp
  qed
qed

lemma bit_length_pos: "n \<noteq> 0 \<Longrightarrow> 1 \<le> bit_length n"
  by (subst bit_length.simps) simp

lemma bit_length_1: "bit_length (Suc 0) = 1"
  by (subst bit_length.simps) simp

lemma floor_log2_nat:
  assumes "j \<noteq> 0" "j < 2 ^ 53"
  shows "- 1 \<le> floor_log2 (of_nat j) \<and> floor_log2 (of_nat j) \<le> 52"
proof -
  have q: "quotient_of (of_nat j :: rat) = (int j, 1)"
    using quotient_of_int [of "int j"] by simp
  have "1 \<le> bit_length j" "bit_length j \<le> 53"
    using bit_length_pos [OF assms(1)] bit_length_le [OF assms(2)]
    by (simp_all del: bit_length.simps)
  then show ?thesis
    by (simp add: floor_log2_def q Let_def bit_length_1 del: bit_length.simps)
qed

lemma round_half_even_int: "round_half_even (of_int z) = z"
  by (simp add: round_half_even_def)

lemma to_double_nat:
  assumes "j \<noteq> 0" "j < 2 ^ 53"
  shows "to_double (of_nat j) = Fin (of_nat j)" and "to_double (- of_nat j) = Fin (- of_nat j)"
proof -
  let ?a = "of_nat j :: rat"
  let ?e = "floor_log2 ?a"
  have e: "- 1 \<le> ?e" "?e \<le> 52" using floor_log2_nat [OF assms] by simp_all
  then have m: "max ?e (- 1022) = ?e" by simp
  define t where "t = nat (52 - ?e)"
  have u: "(2::rat) powi (?e - 52) = inverse (2 ^ t)"
  proof (cases "?e = 52")
    case True
    then show ?thesis by (simp add: t_def)
  next
    case False
    then have "?e - 52 < 0" using e by simp
    then have "(2::rat) powi (?e - 52) = inverse 2 ^ nat (- (?e - 52))"
      by (simp add: power_int_def)
    moreover have "nat (- (?e - 52)) = t" by (simp add: t_def)
    moreover have "inverse (2::rat) ^ t = inverse (2 ^ t)" by (rule power_inverse)
    ultimately show ?thesis by simp
  qed
  have "?a / inverse (2 ^ t) = of_int (int j * 2 ^ t)" by (simp add: field_simps)
  then have r: "round_half_even (?a / inverse (2 ^ t)) = int j * 2 ^ t"
    by (simp only: round_half_even_int)
  have inv: "of_int (int j * 2 ^ t) * inverse (2 ^ t) = ?a" by (simp add: field_simps)
  have "j < 2 ^ 1024"
  proof -
    have "(2::nat) ^ 53 \<le> 2 ^ 1024" by (rule power_increasing) simp_all
    then show ?thesis using assms(2) by linarith
  qed
  then have "?a < of_nat (2 ^ 1024)" by (simp only: of_nat_less_iff)
  then have small: "\<not> (2 ^ 1024 \<le> ?a)" by simp
  have pos: "?a \<noteq> 0" "\<not> ?a < 0" "0 < ?a" using assms(1) by simp_all
  show "to_double (of_nat j) = Fin (of_nat j)"
    using pos small by (simp add: to_double_def Let_def m u r inv del: of_int_mult of_int_power)
  have "\<bar>- ?a\<bar> = ?a" by simp
  then show "to_double (- of_nat j) = Fin (- of_nat j)"
    using pos small by (simp add: to_double_def Let_def m u r inv del: of_int_mult of_int_power)
qed

lemma to_double_of_int:
  assumes "\<bar>k\<bar> < 2 ^ 53"
  shows "to_double (of_int k) = Fin (of_int k)"
proof (cases "k = 0")
  case True
  then show ?thesis by (simp add: to_double_def)
next
  case False
  have n: "nat \<bar>k\<bar> \<noteq> 0" "nat \<bar>k\<bar> < 2 ^ 53" using False assms by auto
  show ?thesis
  proof (cases "0 \<le> k")
    case True
    then have "(of_int k :: rat) = of_nat (nat \<bar>k\<bar>)" by simp
    then show ?thesis using to_double_nat(1) [OF n] by simp
  next
    case False
    then have "(of_int k :: rat) = - of_nat (nat \<bar>k\<bar>)" by simp
    then show ?thesis using to_double_nat(2) [OF n] by simp
  qed
qed

lemma times1000_whole:
  assumes "\<bar>k\<bar> \<le> 9007199254740"
  shows "times1000 (Fin (of_int k)) = Fin (of_int (k * 1000))"
proof -
  have "\<bar>k * 1000\<bar> < 2 ^ 53" using assms by simp
  then have "to_double (of_int (k * 1000)) = Fin (of_int (k * 1000))" by (rule to_double_of_int)
  then show ?thesis by simp
qed

section \<open>Normalizer\<close>

lemma truthy_num_iff: "truthy_num v \<longleftrightarrow> v \<noteq> Fin 0 \<and> v \<noteq> NaN"
  by (cases v) auto

lemma send_time_or_0_cases:
  "send_time_or_0 m =
     (case send_time m of
        None \<Rightarrow> Fin 0
      | Some (Num v) \<Rightarrow> if v = NaN then Fin 0 else v
      | Some Falsy \<Rightarrow> Fin 0
      | Some (Truthy v) \<Rightarrow> v)"
  by (auto simp: send_time_or_0_def truthy_num_iff split: option.splits send_value.splits)

lemma toISOString_Inr:
  "toISOString v = Inr x \<longleftrightarrow>
     (\<exists>d. v = Fin d \<and> \<bar>d\<bar> \<le> 8640000000000000 \<and>
          x = ISOString (if d < 0 then \<lceil>d\<rceil> else \<lfloor>d\<rfloor>))"
  by (cases v) (auto simp: to_integer_def)

lemma normalize_Inr_iff:
  "normalizeReadMessage room m strip = Inr c \<longleftrightarrow>
     (\<exists>t. (if truthy_num (send_time_or_0 m)
            then map_sum id Some (toISOString (times1000 (send_time_or_0 m))) else Inr None) = Inr t \<and>
      c = \<lparr> roomId = String_of room,
            messageId = (case message_id m of None \<Rightarrow> [] | Some s \<Rightarrow> s),
            sendTimeUnix = send_time_or_0 m,
            sendTimeIso = t,
            accountId = (case account m of None \<Rightarrow> None | Some a \<Rightarrow> account_id a),
            accountName = (case account m of None \<Rightarrow> None | Some a \<Rightarrow> name a),
            body = (if strip then stripCommonChatworkTags (raw_body_of m) else raw_body_of m),
            rawBody = raw_body_of m \<rparr>)"
  by (auto simp: normalizeReadMessage_def Let_def split: sum.splits)

lemma map_sum_Some_Inr: "map_sum id Some x = Inr y \<longleftrightarrow> (\<exists>z. x = Inr z \<and> y = Some z)"
  by (cases x) auto

lemma normalize_iso:
  assumes "normalizeReadMessage room m strip = Inr c"
  shows "sendTimeUnix c = send_time_or_0 m"
    and "(sendTimeIso c = None) = (sendTimeUnix c = Fin 0 \<or> sendTimeUnix c = NaN)"
    and "sendTimeUnix c \<noteq> Fin 0 \<and> sendTimeUnix c \<noteq> NaN \<longrightarrow>
           (\<exists>r d. sendTimeUnix c = Fin r \<and> to_double (r * 1000) = Fin d \<and>
                  \<bar>d\<bar> \<le> 8640000000000000 \<and>
                  sendTimeIso c = Some (ISOString (if d < 0 then \<lceil>d\<rceil> else \<lfloor>d\<rfloor>)))"
proof -
  obtain t where t: "(if truthy_num (send_time_or_0 m)
            then map_sum id Some (toISOString (times1000 (send_time_or_0 m))) else Inr None) = Inr t"
    and u: "sendTimeUnix c = send_time_or_0 m" and i: "sendTimeIso c = t"
    using assms by (auto simp: normalize_Inr_iff)
  show "sendTimeUnix c = send_time_or_0 m" by (rule u)
  show "(sendTimeIso c = None) = (sendTimeUnix c = Fin 0 \<or> sendTimeUnix c = NaN)"
    using t u i by (auto simp: truthy_num_iff map_sum_Some_Inr split: if_splits)
  show "sendTimeUnix c \<noteq> Fin 0 \<and> sendTimeUnix c \<noteq> NaN \<longrightarrow>
           (\<exists>r d. sendTimeUnix c = Fin r \<and> to_double (r * 1000) = Fin d \<and>
                  \<bar>d\<bar> \<le> 8640000000000000 \<and>
                  sendTimeIso c = Some (ISOString (if d < 0 then \<lceil>d\<rceil> else \<lfloor>d\<rfloor>)))"
  proof
    assume "sendTimeUnix c \<noteq> Fin 0 \<and> sendTimeUnix c \<noteq> NaN"
    then have tr: "truthy_num (send_time_or_0 m)" using u by (simp add: truthy_num_iff)
    then obtain z where z: "toISOString (times1000 (send_time_or_0 m)) = Inr z" and tz: "t = Some z"
      using t by (auto simp: map_sum_Some_Inr)
    from z obtain d where d: "times1000 (send_time_or_0 m) = Fin d" "\<bar>d\<bar> \<le> 8640000000000000"
      "z = ISOString (if d < 0 then \<lceil>d\<rceil> else \<lfloor>d\<rfloor>)"
      by (auto simp: toISOString_Inr)
    from d(1) obtain r where r: "send_time_or_0 m = Fin r" "to_double (r * 1000) = Fin d"
      by (cases "send_time_or_0 m") simp_all
    show "\<exists>r d. sendTimeUnix c = Fin r \<and> to_double (r * 1000) = Fin d \<and>
                  \<bar>d\<bar> \<le> 8640000000000000 \<and>
                  sendTimeIso c = Some (ISOString (if d < 0 then \<lceil>d\<rceil> else \<lfloor>d\<rfloor>))"
      using r d u i tz by auto
  qed
qed

lemma iso_whole:
  assumes k: "\<bar>k\<bar> \<le> 9007199254740"
  shows "toISOString (times1000 (Fin (of_int k))) =
     (if \<bar>k\<bar> \<le> 8640000000000 then Inr (ISOString (k * 1000))
      else Inl (RangeError ''Invalid time value''))"
proof -
  have x: "times1000 (Fin (of_int k)) = Fin (of_int (k * 1000))" using k by (rule times1000_whole)
  have a: "(\<bar>(of_int (k * 1000) :: rat)\<bar> \<le> of_int 8640000000000000) = (\<bar>k * 1000\<bar> \<le> 8640000000000000)"
    by (simp only: of_int_abs [symmetric] of_int_le_iff)
  have b: "(\<bar>k * 1000\<bar> \<le> 8640000000000000) = (\<bar>k\<bar> \<le> 8640000000000)" by linarith
  have c: "(of_int 8640000000000000 :: rat) = 8640000000000000" by simp
  have r: "(\<bar>(of_int (k * 1000) :: rat)\<bar> \<le> 8640000000000000) = (\<bar>k\<bar> \<le> 8640000000000)"
    using a b by (simp only: c)
  have i: "to_integer (of_int (k * 1000)) = k * 1000"
    unfolding to_integer_def by (simp only: floor_of_int ceiling_of_int if_cancel)
  show ?thesis by (simp only: x toISOString.simps r i)
qed

lemma normalize_whole:
  assumes s: "send_time m = Some (Num (Fin (of_int k)))" and k: "\<bar>k\<bar> \<le> 8640000000000"
  shows "normalizeReadMessage room m strip =
     Inr \<lparr> roomId = String_of room,
           messageId = (case message_id m of None \<Rightarrow> [] | Some s \<Rightarrow> s),
           sendTimeUnix = Fin (of_int k),
           sendTimeIso = (if k = 0 then None else Some (ISOString (k * 1000))),
           accountId = (case account m of None \<Rightarrow> None | Some a \<Rightarrow> account_id a),
           accountName = (case account m of None \<Rightarrow> None | Some a \<Rightarrow> name a),
           body = (if strip then stripCommonChatworkTags (raw_body_of m) else raw_body_of m),
           rawBody = raw_body_of m \<rparr>"
proof -
  have t: "send_time_or_0 m = Fin (of_int k)"
    using s by (simp add: send_time_or_0_cases)
  have "\<bar>k\<bar> \<le> 9007199254740" using k by simp
  then have "toISOString (times1000 (Fin (of_int k))) = Inr (ISOString (k * 1000))"
    using k by (simp only: iso_whole if_True)
  then show ?thesis
    by (simp add: normalizeReadMessage_def Let_def t del: times1000.simps)
qed

lemma normalize_out_of_range:
  assumes s: "send_time m = Some (Num (Fin (of_int k)))"
    and k: "8640000000000 < \<bar>k\<bar>" "\<bar>k\<bar> \<le> 9007199254740"
  shows "normalizeReadMessage room m strip = Inl (RangeError ''Invalid time value'')"
proof -
  have t: "send_time_or_0 m = Fin (of_int k)"
    using s by (simp add: send_time_or_0_cases)
  have "\<not> \<bar>k\<bar> \<le> 8640000000000" using k(1) by simp
  then have "toISOString (times1000 (Fin (of_int k))) = Inl (RangeError ''Invalid time value'')"
    using k(2) by (simp only: iso_whole if_False)
  moreover have "k \<noteq> 0" using k(1) by auto
  ultimately show ?thesis
    by (simp add: normalizeReadMessage_def Let_def t del: times1000.simps)
qed

text \<open>
  A product that the rounding changes: the double nearest to 0.009 is a little below
  it, and its product with 1000 rounds to 9.
\<close>

lemma quotient_of_9_thousandths: "quotient_of (648518346341351375 / 72057594037927936 :: rat)
      = (648518346341351375, 72057594037927936)"
proof -
  have "coprime (648518346341351375::int) 2"
    by (simp add: coprime_right_2_iff_odd)
  then have c: "coprime (648518346341351375::int) (2 ^ 56)"
    by (simp only: coprime_power_right_iff) simp
  have e: "(2::int) ^ 56 = 72057594037927936" by simp
  have "quotient_of (Fract 648518346341351375 72057594037927936)
      = (648518346341351375, 72057594037927936)"
    using c [unfolded e] by (simp add: quotient_of_Fract Rat.normalize_stable)
  then show ?thesis by (simp add: Fract_of_int_quotient)
qed

lemma to_double_9_thousandths:
  "to_double (5188146770730811 / 576460752303423488 * 1000) = Fin 9"
proof -
  let ?a = "648518346341351375 / 72057594037927936 :: rat"
  have a: "(5188146770730811 / 576460752303423488 * 1000 :: rat) = ?a" by simp
  have b1: "bit_length 648518346341351375 = 60" by simp
  have b2: "bit_length 72057594037927936 = 57" by simp
  have f: "floor_log2 ?a = 3"
    by (simp add: floor_log2_def quotient_of_9_thousandths b1 b2 del: bit_length.simps)
  have u: "(2::rat) powi (3 - 52) = 1 / 562949953421312" by (simp add: power_int_def power_one_over)
  have d: "?a / (1 / 562949953421312) = 648518346341351375 / 128" by simp
  have fl: "\<lfloor>648518346341351375 / 128 :: rat\<rfloor> = 5066549580791807"
    by (rule floor_unique) simp_all
  have r: "round_half_even (648518346341351375 / 128) = 5066549580791808"
    by (simp add: round_half_even_def Let_def fl)
  have m: "(of_int 5066549580791808 :: rat) * (1 / 562949953421312) = 9" by simp
  have p: "\<not> (2::rat) ^ 1024 \<le> 9" by simp
  have n: "?a \<noteq> 0" "\<not> ?a < 0" "\<bar>?a\<bar> = ?a" by simp_all
  have mx: "max (3::int) (- 1022) = 3" by simp
  have "to_double ?a = Fin 9"
    unfolding to_double_def Let_def
    by (simp only: n f mx u d r m p if_False if_True)
  then show ?thesis by (simp only: a)
qed

lemma normalize_flag_False:
  "normalizeReadMessage room m False =
     map_sum id (\<lambda>c. c\<lparr>body := rawBody c\<rparr>) (normalizeReadMessage room m strip)"
  by (auto simp: normalizeReadMessage_def Let_def split: sum.splits)

lemma normalize_flag_True:
  "normalizeReadMessage room m True =
     map_sum id (\<lambda>c. c\<lparr>body := stripCommonChatworkTags (rawBody c)\<rparr>)
       (normalizeReadMessage room m strip)"
  by (auto simp: normalizeReadMessage_def Let_def split: sum.splits)

lemma normalize_9_thousandths:
  "normalizeReadMessage (Str ''42'')
      \<lparr> message_id = Some ''9'', account = None, msg_body = Some ''hi'',
        send_time = Some (Num (Fin (5188146770730811 / 576460752303423488))) \<rparr> False
     = Inr \<lparr> roomId = ''42'', messageId = ''9'',
             sendTimeUnix = Fin (5188146770730811 / 576460752303423488),
             sendTimeIso = Some (ISOString 9), accountId = None, accountName = None,
             body = ''hi'', rawBody = ''hi'' \<rparr>"
proof -
  have t: "times1000 (Fin (5188146770730811 / 576460752303423488)) = Fin 9"
    by (simp only: times1000.simps to_double_9_thousandths)
  show ?thesis
    by (simp add: normalizeReadMessage_def Let_def send_time_or_0_def raw_body_of_def t
        to_integer_def del: times1000.simps)
qed

lemma normalize_not_a_number:
  "normalizeReadMessage (Str ''42'')
      \<lparr> message_id = Some ''6'', account = None, msg_body = Some ''hi'',
        send_time = Some (Truthy NaN) \<rparr> False
     = Inr \<lparr> roomId = ''42'', messageId = ''6'', sendTimeUnix = NaN, sendTimeIso = None,
             accountId = None, accountName = None, body = ''hi'', rawBody = ''hi'' \<rparr>"
  by (simp add: normalizeReadMessage_def Let_def send_time_or_0_def raw_body_of_def)

text \<open>
  C7.  Normalizing with the strip flag false gives the message that any flag gives,
  with \<open>body\<close> set to \<open>rawBody\<close>; with the flag true, the same message with \<open>body\<close> set to
  the stripped \<open>rawBody\<close>.  So no field but \<open>body\<close> depends on the flag (nor does
  whether the normalizer throws), \<open>body\<close> is a function of \<open>rawBody\<close> and the flag, and
  \<open>rawBody\<close> is the record's body text as received (the empty string for a record
  without a body).
\<close>

theorem normalizeReadMessage_strip_flag:
  "normalizeReadMessage room m False =
     map_sum id (\<lambda>c. c\<lparr>body := rawBody c\<rparr>) (normalizeReadMessage room m strip)
   \<and> normalizeReadMessage room m True =
     map_sum id (\<lambda>c. c\<lparr>body := stripCommonChatworkTags (rawBody c)\<rparr>)
       (normalizeReadMessage room m strip)
   \<and> (\<forall>c. normalizeReadMessage room m strip = Inr c \<longrightarrow>
         rawBody c = raw_body_of m \<and>
         body c = (if strip then stripCommonChatworkTags (rawBody c) else rawBody c))
   \<and> (\<forall>b. msg_body m = Some b \<longrightarrow> raw_body_of m = b)"
proof -
  have "\<forall>c. normalizeReadMessage room m strip = Inr c \<longrightarrow>
         rawBody c = raw_body_of m \<and>
         body c = (if strip then stripCommonChatworkTags (rawBody c) else rawBody c)"
    by (auto simp: normalize_Inr_iff)
  moreover have "\<forall>b. msg_body m = Some b \<longrightarrow> raw_body_of m = b"
    by (simp add: raw_body_of_def)
  ultimately show ?thesis
    using normalize_flag_False [of room m strip] normalize_flag_True [of room m strip]
    by simp
qed

theorem normalizeReadMessage_strip_flag_witness:
  "normalizeReadMessage (Str ''42'')
      \<lparr> message_id = Some ''7'', account = Some \<lparr> account_id = Some (Fin 5), name = Some ''Ann'' \<rparr>,
        msg_body = Some ''[To:5] hi [info]x[/info] '', send_time = Some (Num (Fin 1700000000)) \<rparr> False
     = Inr \<lparr> roomId = ''42'', messageId = ''7'', sendTimeUnix = Fin 1700000000,
             sendTimeIso = Some (ISOString 1700000000000), accountId = Some (Fin 5),
             accountName = Some ''Ann'', body = ''[To:5] hi [info]x[/info] '',
             rawBody = ''[To:5] hi [info]x[/info] '' \<rparr>
   \<and> normalizeReadMessage (Str ''42'')
      \<lparr> message_id = Some ''7'', account = Some \<lparr> account_id = Some (Fin 5), name = Some ''Ann'' \<rparr>,
        msg_body = Some ''[To:5] hi [info]x[/info] '', send_time = Some (Num (Fin 1700000000)) \<rparr> True
     = Inr \<lparr> roomId = ''42'', messageId = ''7'', sendTimeUnix = Fin 1700000000,
             sendTimeIso = Some (ISOString 1700000000000), accountId = Some (Fin 5),
             accountName = Some ''Ann'', body = ''hi x'',
             rawBody = ''[To:5] hi [info]x[/info] '' \<rparr>"
proof -
  let ?m = "\<lparr> message_id = Some ''7'',
             account = Some \<lparr> account_id = Some (Fin 5), name = Some ''Ann'' \<rparr>,
             msg_body = Some ''[To:5] hi [info]x[/info] '',
             send_time = Some (Num (Fin 1700000000)) \<rparr>"
  have s: "stripCommonChatworkTags ''[To:5] hi [info]x[/info] '' = ''hi x''"
    by (simp add: stripCommonChatworkTags_def match_to_def match_rp_def match_block_def
        lit_def digits1_def is_digit_def trim_def is_space_def)
  have f: "normalizeReadMessage (Str ''42'') ?m False
     = Inr \<lparr> roomId = ''42'', messageId = ''7'', sendTimeUnix = Fin 1700000000,
             sendTimeIso = Some (ISOString 1700000000000), accountId = Some (Fin 5),
             accountName = Some ''Ann'', body = ''[To:5] hi [info]x[/info] '',
             rawBody = ''[To:5] hi [info]x[/info] '' \<rparr>"
    using normalize_whole [of ?m 1700000000 "Str ''42''" False]
    by (simp add: raw_body_of_def)
  show ?thesis
    using normalizeReadMessage_strip_flag [of "Str ''42''" ?m False] f s
    by simp
qed

text \<open>
  C9, as the code has it.  When the normalizer returns a message, its \<open>sendTimeUnix\<close>
  is \<open>Number(send_time || 0)\<close>: the record's \<open>send_time\<close> as received when that is a
  number other than \<open>NaN\<close>, 0 for a record without one or with a falsy one, and what
  \<open>Number\<close> makes of any other value.  So it is an integer that is not negative
  whenever \<open>send_time\<close> is one, and nothing else makes it so; and it is \<open>NaN\<close> exactly
  for a truthy \<open>send_time\<close> that is not numeric.  \<open>sendTimeIso\<close> is null exactly when
  \<open>sendTimeUnix\<close> is 0 or \<open>NaN\<close>, hence, unless \<open>send_time\<close> is such a value, exactly
  when \<open>sendTimeUnix\<close> is 0.  Otherwise \<open>sendTimeUnix\<close> is finite and \<open>sendTimeIso\<close> is
  the rendering of the double nearest to \<open>sendTimeUnix * 1000\<close>, a valid date,
  truncated to whole milliseconds.  For every whole number of seconds up to
  8640000000000 in magnitude the normalizer returns, with the rendering of that
  many seconds; beyond it (as far as the product is exact) it throws a \<open>RangeError\<close>.
\<close>

theorem normalizeReadMessage_send_time:
  "(\<forall>c. normalizeReadMessage room m strip = Inr c \<longrightarrow>
      (sendTimeIso c = None) = (sendTimeUnix c = Fin 0 \<or> sendTimeUnix c = NaN) \<and>
      (sendTimeUnix c = NaN) = (send_time m = Some (Truthy NaN)) \<and>
      (send_time m \<noteq> Some (Truthy NaN) \<longrightarrow>
         (sendTimeIso c = None) = (sendTimeUnix c = Fin 0)) \<and>
      sendTimeUnix c =
        (case send_time m of
           None \<Rightarrow> Fin 0
         | Some (Num v) \<Rightarrow> if v = NaN then Fin 0 else v
         | Some Falsy \<Rightarrow> Fin 0
         | Some (Truthy v) \<Rightarrow> v) \<and>
      (\<forall>v. send_time m = Some (Num v) \<and> is_nonneg_integer v \<longrightarrow> sendTimeUnix c = v) \<and>
      (sendTimeUnix c \<noteq> Fin 0 \<and> sendTimeUnix c \<noteq> NaN \<longrightarrow>
         (\<exists>r d. sendTimeUnix c = Fin r \<and> to_double (r * 1000) = Fin d \<and>
                \<bar>d\<bar> \<le> 8640000000000000 \<and>
                sendTimeIso c = Some (ISOString (if d < 0 then \<lceil>d\<rceil> else \<lfloor>d\<rfloor>)))))
   \<and> (\<forall>k::int. send_time m = Some (Num (Fin (of_int k))) \<and> \<bar>k\<bar> \<le> 8640000000000 \<longrightarrow>
         (\<exists>c. normalizeReadMessage room m strip = Inr c \<and>
              sendTimeUnix c = Fin (of_int k) \<and>
              sendTimeIso c = (if k = 0 then None else Some (ISOString (k * 1000)))))
   \<and> (\<forall>k::int. send_time m = Some (Num (Fin (of_int k))) \<and>
                8640000000000 < \<bar>k\<bar> \<and> \<bar>k\<bar> \<le> 9007199254740 \<longrightarrow>
         normalizeReadMessage room m strip = Inl (RangeError ''Invalid time value''))"
proof -
  have a: "(sendTimeIso c = None) = (sendTimeUnix c = Fin 0 \<or> sendTimeUnix c = NaN) \<and>
      (sendTimeUnix c = NaN) = (send_time m = Some (Truthy NaN)) \<and>
      (send_time m \<noteq> Some (Truthy NaN) \<longrightarrow>
         (sendTimeIso c = None) = (sendTimeUnix c = Fin 0)) \<and>
      sendTimeUnix c =
        (case send_time m of
           None \<Rightarrow> Fin 0
         | Some (Num v) \<Rightarrow> if v = NaN then Fin 0 else v
         | Some Falsy \<Rightarrow> Fin 0
         | Some (Truthy v) \<Rightarrow> v) \<and>
      (\<forall>v. send_time m = Some (Num v) \<and> is_nonneg_integer v \<longrightarrow> sendTimeUnix c = v) \<and>
      (sendTimeUnix c \<noteq> Fin 0 \<and> sendTimeUnix c \<noteq> NaN \<longrightarrow>
         (\<exists>r d. sendTimeUnix c = Fin r \<and> to_double (r * 1000) = Fin d \<and>
                \<bar>d\<bar> \<le> 8640000000000000 \<and>
                sendTimeIso c = Some (ISOString (if d < 0 then \<lceil>d\<rceil> else \<lfloor>d\<rfloor>))))"
    if h: "normalizeReadMessage room m strip = Inr c" for c
  proof -
    note n = normalize_iso [OF h]
    have u: "sendTimeUnix c =
        (case send_time m of
           None \<Rightarrow> Fin 0
         | Some (Num v) \<Rightarrow> if v = NaN then Fin 0 else v
         | Some Falsy \<Rightarrow> Fin 0
         | Some (Truthy v) \<Rightarrow> v)"
      using n(1) by (simp only: send_time_or_0_cases)
    have nan: "(sendTimeUnix c = NaN) = (send_time m = Some (Truthy NaN))"
      unfolding u by (auto split: option.splits send_value.splits)
    have int: "\<forall>v. send_time m = Some (Num v) \<and> is_nonneg_integer v \<longrightarrow> sendTimeUnix c = v"
      unfolding u by auto
    show ?thesis using n(2) n(3) u nan int by simp
  qed
  have d: "\<forall>k::int. send_time m = Some (Num (Fin (of_int k))) \<and> \<bar>k\<bar> \<le> 8640000000000 \<longrightarrow>
         (\<exists>c. normalizeReadMessage room m strip = Inr c \<and>
              sendTimeUnix c = Fin (of_int k) \<and>
              sendTimeIso c = (if k = 0 then None else Some (ISOString (k * 1000))))"
  proof (intro allI impI)
    fix k :: int
    assume "send_time m = Some (Num (Fin (of_int k))) \<and> \<bar>k\<bar> \<le> 8640000000000"
    then have "normalizeReadMessage room m strip =
       Inr \<lparr> roomId = String_of room,
           messageId = (case message_id m of None \<Rightarrow> [] | Some s \<Rightarrow> s),
           sendTimeUnix = Fin (of_int k),
           sendTimeIso = (if k = 0 then None else Some (ISOString (k * 1000))),
           accountId = (case account m of None \<Rightarrow> None | Some a \<Rightarrow> account_id a),
           accountName = (case account m of None \<Rightarrow> None | Some a \<Rightarrow> name a),
           body = (if strip then stripCommonChatworkTags (raw_body_of m) else raw_body_of m),
           rawBody = raw_body_of m \<rparr>"
      using normalize_whole [of m k room strip] by blast
    then show "\<exists>c. normalizeReadMessage room m strip = Inr c \<and>
              sendTimeUnix c = Fin (of_int k) \<and>
              sendTimeIso c = (if k = 0 then None else Some (ISOString (k * 1000)))"
      by simp
  qed
  have e: "\<forall>k::int. send_time m = Some (Num (Fin (of_int k))) \<and>
                8640000000000 < \<bar>k\<bar> \<and> \<bar>k\<bar> \<le> 9007199254740 \<longrightarrow>
         normalizeReadMessage room m strip = Inl (RangeError ''Invalid time value'')"
    using normalize_out_of_range [of m _ room strip] by blast
  show ?thesis using a d e by blast
qed

theorem normalizeReadMessage_send_time_witness:
  "(\<exists>c. normalizeReadMessage (Str ''42'')
          \<lparr> message_id = Some ''7'', account = None, msg_body = Some ''hi'',
            send_time = Some (Num (Fin 1700000000)) \<rparr> False = Inr c \<and>
        sendTimeUnix c = Fin 1700000000 \<and> sendTimeIso c = Some (ISOString 1700000000000))
   \<and> (\<exists>c. normalizeReadMessage (Str ''42'')
          \<lparr> message_id = Some ''8'', account = None, msg_body = Some ''hi'',
            send_time = Some (Num (Fin 0)) \<rparr> False = Inr c \<and>
        sendTimeUnix c = Fin 0 \<and> sendTimeIso c = None)
   \<and> (\<exists>c. normalizeReadMessage (Str ''42'')
          \<lparr> message_id = Some ''9'', account = None, msg_body = Some ''hi'',
            send_time = Some (Num (Fin (5188146770730811 / 576460752303423488))) \<rparr> False = Inr c \<and>
        sendTimeUnix c = Fin (5188146770730811 / 576460752303423488) \<and>
        sendTimeIso c = Some (ISOString 9))
   \<and> (\<exists>c. normalizeReadMessage (Str ''42'')
          \<lparr> message_id = Some ''6'', account = None, msg_body = Some ''hi'',
            send_time = Some (Truthy NaN) \<rparr> False = Inr c \<and>
        sendTimeUnix c = NaN \<and> sendTimeIso c = None)
   \<and> normalizeReadMessage (Str ''42'')
          \<lparr> message_id = Some ''5'', account = None, msg_body = Some ''hi'',
            send_time = Some (Num (Fin 9000000000000)) \<rparr> False
        = Inl (RangeError ''Invalid time value'')"
proof -
  let ?m = "\<lparr> message_id = Some ''7'', account = None, msg_body = Some ''hi'',
            send_time = Some (Num (Fin 1700000000)) \<rparr>"
  let ?z = "\<lparr> message_id = Some ''8'', account = None, msg_body = Some ''hi'',
            send_time = Some (Num (Fin 0)) \<rparr>"
  let ?h = "\<lparr> message_id = Some ''9'', account = None, msg_body = Some ''hi'',
            send_time = Some (Num (Fin (5188146770730811 / 576460752303423488))) \<rparr>"
  let ?n = "\<lparr> message_id = Some ''6'', account = None, msg_body = Some ''hi'',
            send_time = Some (Truthy NaN) \<rparr>"
  let ?b = "\<lparr> message_id = Some ''5'', account = None, msg_body = Some ''hi'',
            send_time = Some (Num (Fin 9000000000000)) \<rparr>"
  have "\<forall>k::int. send_time ?m = Some (Num (Fin (of_int k))) \<and> \<bar>k\<bar> \<le> 8640000000000 \<longrightarrow>
         (\<exists>c. normalizeReadMessage (Str ''42'') ?m False = Inr c \<and>
              sendTimeUnix c = Fin (of_int k) \<and>
              sendTimeIso c = (if k = 0 then None else Some (ISOString (k * 1000))))"
    using normalizeReadMessage_send_time [of "Str ''42''" ?m False] by blast
  from this [rule_format, of 1700000000]
  have a: "\<exists>c. normalizeReadMessage (Str ''42'') ?m False = Inr c \<and>
        sendTimeUnix c = Fin 1700000000 \<and> sendTimeIso c = Some (ISOString 1700000000000)"
    by simp
  have "\<forall>k::int. send_time ?z = Some (Num (Fin (of_int k))) \<and> \<bar>k\<bar> \<le> 8640000000000 \<longrightarrow>
         (\<exists>c. normalizeReadMessage (Str ''42'') ?z False = Inr c \<and>
              sendTimeUnix c = Fin (of_int k) \<and>
              sendTimeIso c = (if k = 0 then None else Some (ISOString (k * 1000))))"
    using normalizeReadMessage_send_time [of "Str ''42''" ?z False] by blast
  from this [rule_format, of 0]
  have b: "\<exists>c. normalizeReadMessage (Str ''42'') ?z False = Inr c \<and>
        sendTimeUnix c = Fin 0 \<and> sendTimeIso c = None"
    by simp
  have "\<forall>c. normalizeReadMessage (Str ''42'') ?h False = Inr c \<longrightarrow>
      (sendTimeUnix c \<noteq> Fin 0 \<and> sendTimeUnix c \<noteq> NaN \<longrightarrow>
         (\<exists>r d. sendTimeUnix c = Fin r \<and> to_double (r * 1000) = Fin d \<and>
                \<bar>d\<bar> \<le> 8640000000000000 \<and>
                sendTimeIso c = Some (ISOString (if d < 0 then \<lceil>d\<rceil> else \<lfloor>d\<rfloor>))))"
    using normalizeReadMessage_send_time [of "Str ''42''" ?h False] by blast
  from this [rule_format, OF normalize_9_thousandths]
  obtain r d where "Fin (5188146770730811 / 576460752303423488) = Fin r"
    and dd: "to_double (r * 1000) = Fin d"
    and "Some (ISOString 9) = Some (ISOString (if d < 0 then \<lceil>d\<rceil> else \<lfloor>d\<rfloor>))"
    by auto
  then have c: "\<exists>c. normalizeReadMessage (Str ''42'') ?h False = Inr c \<and>
        sendTimeUnix c = Fin (5188146770730811 / 576460752303423488) \<and>
        sendTimeIso c = Some (ISOString 9)"
    using normalize_9_thousandths by simp
  have "\<forall>c. normalizeReadMessage (Str ''42'') ?n False = Inr c \<longrightarrow>
      (sendTimeIso c = None) = (sendTimeUnix c = Fin 0 \<or> sendTimeUnix c = NaN)"
    using normalizeReadMessage_send_time [of "Str ''42''" ?n False] by blast
  from this [rule_format, OF normalize_not_a_number]
  have d: "\<exists>c. normalizeReadMessage (Str ''42'') ?n False = Inr c \<and>
        sendTimeUnix c = NaN \<and> sendTimeIso c = None"
    using normalize_not_a_number by simp
  have "\<forall>k::int. send_time ?b = Some (Num (Fin (of_int k))) \<and>
                8640000000000 < \<bar>k\<bar> \<and> \<bar>k\<bar> \<le> 9007199254740 \<longrightarrow>
         normalizeReadMessage (Str ''42'') ?b False = Inl (RangeError ''Invalid time value'')"
    using normalizeReadMessage_send_time [of "Str ''42''" ?b False] by blast
  from this [rule_format, of 9000000000000]
  have e: "normalizeReadMessage (Str ''42'') ?b False = Inl (RangeError ''Invalid time value'')"
    by simp
  show ?thesis using a b c d e by (intro conjI)
qed

text \<open>
  C9 as stated fails on a record whose \<open>send_time\<close> is negative: the normalizer passes
  \<open>-5\<close> through, so \<open>sendTimeUnix\<close> is \<open>-5\<close>, not an integer that is at least 0, and
  \<open>sendTimeIso\<close> renders five seconds before the epoch.
\<close>

theorem normalizeReadMessage_negative_counterexample:
  "map_sum id sendTimeUnix (normalizeReadMessage (Str ''42'')
      \<lparr> message_id = Some ''7'', account = None, msg_body = Some ''hi'',
        send_time = Some (Num (Fin (- 5))) \<rparr> False)
     = Inr (Fin (- 5))
   \<and> map_sum id sendTimeIso (normalizeReadMessage (Str ''42'')
      \<lparr> message_id = Some ''7'', account = None, msg_body = Some ''hi'',
        send_time = Some (Num (Fin (- 5))) \<rparr> False)
     = Inr (Some (ISOString (- 5000)))
   \<and> \<not> is_nonneg_integer (Fin (- 5))"
  using normalize_whole [of "\<lparr> message_id = Some ''7'', account = None, msg_body = Some ''hi'',
        send_time = Some (Num (Fin (- 5))) \<rparr>" "- 5" "Str ''42''" False]
  by simp

section \<open>Facts about the pipeline's stages\<close>

subsection \<open>Numbers\<close>

lemma js_le_trans: "js_le a b \<Longrightarrow> js_le b c \<Longrightarrow> js_le a c"
  by (cases a; cases b; cases c) simp_all

lemma js_le_total: "a \<noteq> NaN \<Longrightarrow> b \<noteq> NaN \<Longrightarrow> js_le a b \<or> js_le b a"
  by (cases a; cases b) auto

lemma js_le_not_NaN: "js_le a b \<Longrightarrow> a \<noteq> NaN \<and> b \<noteq> NaN"
  by (cases a; cases b) simp_all

lemma is_negative_sub: "a \<noteq> NaN \<Longrightarrow> b \<noteq> NaN \<Longrightarrow> is_negative (js_sub a b) = (\<not> js_le b a)"
  by (cases a; cases b) auto

lemma is_negative_sub_distinct: "is_negative (js_sub a b) \<Longrightarrow> a \<noteq> b"
  by (cases a; cases b) auto

lemma js_le_NaN_right: "\<not> js_le a NaN"
  by (cases a) simp_all

lemma send_key_or_0: "send_key m \<noteq> NaN \<Longrightarrow> send_time_or_0 m = send_key m"
proof (cases "send_time m")
  case None
  assume "send_key m \<noteq> NaN"
  with None show ?thesis by (simp add: send_key_def)
next
  case (Some v)
  assume "send_key m \<noteq> NaN"
  with Some show ?thesis
    by (cases v) (auto simp: send_key_def send_time_or_0_def truthy_num_iff)
qed

lemma in_window_key:
  "in_window since until (send_key m) \<Longrightarrow> in_window since until (send_time_or_0 m)"
proof (cases "send_key m = NaN")
  case True
  assume "in_window since until (send_key m)"
  with True show ?thesis
    by (cases since; cases until) (simp_all add: in_window_def js_le_NaN_right)
next
  case False
  assume "in_window since until (send_key m)"
  with False show ?thesis by (simp add: send_key_or_0)
qed

subsection \<open>The slice and the limit\<close>

lemma to_integer_neg: "1 \<le> l \<Longrightarrow> to_integer (- l) = - \<lfloor>l\<rfloor>"
  by (simp add: to_integer_def ceiling_def)

lemma slice_from_last:
  assumes "1 \<le> l"
  shows "slice_from (to_integer (- l)) xs = drop (length xs - nat \<lfloor>l\<rfloor>) xs"
proof -
  have p: "1 \<le> \<lfloor>l\<rfloor>" using assms by linarith
  then have "nat (max (int (length xs) - \<lfloor>l\<rfloor>) 0) = length xs - nat \<lfloor>l\<rfloor>" by linarith
  then show ?thesis using p assms by (simp add: slice_from_def to_integer_neg Let_def)
qed

lemma effective_limit_range: "1 \<le> effective_limit numParse opts \<and> effective_limit numParse opts \<le> 100"
  by (simp add: effective_limit_def)

lemma effective_limit_default: "opts ''limit'' = None \<Longrightarrow> effective_limit numParse opts = 30"
  by (simp add: effective_limit_def parseIntSafe_def)

subsection \<open>The throwing map\<close>

lemma map_throwing_Inr:
  "map_throwing f xs = Inr ys \<Longrightarrow> ys = map (\<lambda>x. projr (f x)) xs \<and> (\<forall>x\<in>set xs. f x = Inr (projr (f x)))"
  by (induction xs arbitrary: ys) (auto split: sum.splits)

lemma map_throwing_map_sum:
  "(\<And>x. g x = map_sum id h (f x)) \<Longrightarrow> map_throwing g xs = map_sum id (map h) (map_throwing f xs)"
  by (induction xs) (auto split: sum.splits)

subsection \<open>The filters\<close>

lemma window_filters:
  "until_filter until (since_filter since ms) = filter (\<lambda>m. in_window since until (send_key m)) ms"
  by (cases since; cases until)
     (simp_all add: until_filter_def since_filter_def in_window_def js_ge_def conj_commute)

lemma str_includes_iff: "str_includes h n \<longleftrightarrow> (\<exists>p s. h = p @ n @ s)"
proof (induction h)
  case Nil
  then show ?case by simp
next
  case (Cons c cs)
  show ?case
  proof
    assume "str_includes (c # cs) n"
    then consider "prefix n (c # cs)" | "str_includes cs n" by auto
    then show "\<exists>p s. c # cs = p @ n @ s"
    proof cases
      case 1
      then obtain s where "c # cs = n @ s" by (auto simp: prefix_def)
      then have "c # cs = [] @ n @ s" by simp
      then show ?thesis by blast
    next
      case 2
      then obtain p s where "cs = p @ n @ s" using Cons.IH by blast
      then have "c # cs = (c # p) @ n @ s" by simp
      then show ?thesis by blast
    qed
  next
    assume "\<exists>p s. c # cs = p @ n @ s"
    then obtain p s where e: "c # cs = p @ n @ s" by blast
    show "str_includes (c # cs) n"
    proof (cases p)
      case Nil
      then have "prefix n (c # cs)" using e by (simp add: prefix_def)
      then show ?thesis by simp
    next
      case (Cons a p')
      then have "cs = p' @ n @ s" using e by simp
      then have "str_includes cs n" using Cons.IH by blast
      then show ?thesis by simp
    qed
  qed
qed

lemma contains_filter_iff:
  "contains_filter needle ms =
     filter (\<lambda>m. needle = [] \<or> (\<exists>p s. raw_body_of m = p @ needle @ s)) ms"
  unfolding contains_filter_def
  by (rule filter_cong) (auto simp: str_includes_iff)

subsection \<open>The sort\<close>

lemma set_insert_sorted: "set (insert_sorted cmp x ys) = insert x (set ys)"
  by (induction ys) auto

lemma set_js_sort: "set (js_sort cmp xs) = set xs"
  by (induction xs) (simp_all add: set_insert_sorted)

lemma mset_insert_sorted: "mset (insert_sorted cmp x ys) = add_mset x (mset ys)"
  by (induction ys) auto

lemma mset_js_sort: "mset (js_sort cmp xs) = mset xs"
  by (induction xs) (simp_all add: mset_insert_sorted)

lemma stable_insert_sorted:
  "filter (\<lambda>m. send_key m = k) (insert_sorted by_send_time x ys) =
     filter (\<lambda>m. send_key m = k) (x # ys)"
proof (induction ys)
  case Nil
  then show ?case by simp
next
  case (Cons y ys)
  show ?case
  proof (cases "is_negative (by_send_time y x)")
    case True
    then have "send_key y \<noteq> send_key x"
      by (auto simp: by_send_time_def dest: is_negative_sub_distinct)
    then show ?thesis using True Cons.IH by auto
  next
    case False
    then show ?thesis by simp
  qed
qed

lemma stable_js_sort:
  "filter (\<lambda>m. send_key m = k) (js_sort by_send_time xs) = filter (\<lambda>m. send_key m = k) xs"
proof (induction xs)
  case Nil
  then show ?case by simp
next
  case (Cons x xs)
  have "filter (\<lambda>m. send_key m = k) (js_sort by_send_time (x # xs)) =
        filter (\<lambda>m. send_key m = k) (x # js_sort by_send_time xs)"
    by (simp only: js_sort.simps stable_insert_sorted)
  then show ?case using Cons.IH by simp
qed

lemma sorted_insert_sorted:
  assumes "send_key x \<noteq> NaN" "\<forall>y\<in>set ys. send_key y \<noteq> NaN" "sorted_wrt key_le ys"
  shows "sorted_wrt key_le (insert_sorted by_send_time x ys)"
  using assms
proof (induction ys)
  case Nil
  then show ?case by simp
next
  case (Cons y ys)
  show ?case
  proof (cases "is_negative (by_send_time y x)")
    case True
    then have yx: "key_le y x"
      using Cons.prems(1,2) js_le_total[of "send_key y" "send_key x"]
      by (auto simp: by_send_time_def key_le_def is_negative_sub)
    have "sorted_wrt key_le (insert_sorted by_send_time x ys)"
      using Cons by simp
    moreover have "\<forall>z\<in>set (insert_sorted by_send_time x ys). key_le y z"
      using Cons.prems(3) yx by (auto simp: set_insert_sorted)
    ultimately show ?thesis using True by simp
  next
    case False
    then have xy: "key_le x y"
      using Cons.prems(1,2) by (simp add: by_send_time_def key_le_def is_negative_sub)
    have "\<forall>z\<in>set ys. key_le x z"
      using Cons.prems(3) xy js_le_trans unfolding key_le_def by fastforce
    then show ?thesis using False Cons.prems(3) xy by simp
  qed
qed

lemma sorted_js_sort:
  "\<forall>y\<in>set xs. send_key y \<noteq> NaN \<Longrightarrow> sorted_wrt key_le (js_sort by_send_time xs)"
  by (induction xs) (simp_all add: sorted_insert_sorted set_js_sort)

subsection \<open>The chain\<close>

lemma select_messages_tail:
  "1 \<le> limit \<Longrightarrow> select_messages limit since until contains raw =
     drop (length (matching since until contains raw) - nat \<lfloor>limit\<rfloor>)
       (js_sort by_send_time (matching since until contains raw))"
proof -
  assume l: "1 \<le> limit"
  have "length (js_sort by_send_time (matching since until contains raw)) =
        length (matching since until contains raw)"
    by (metis mset_js_sort size_mset)
  then show ?thesis using l
    by (simp add: select_messages_def matching_def slice_from_last)
qed

lemma set_matching:
  "set (matching since until contains raw) =
     {m \<in> set (array_or_empty raw). in_window since until (send_key m) \<and>
        (contains = [] \<or> (\<exists>p s. raw_body_of m = p @ contains @ s))}"
  by (auto simp: matching_def window_filters contains_filter_iff)

lemma set_select_messages:
  "1 \<le> limit \<Longrightarrow> set (select_messages limit since until contains raw) \<subseteq> set (matching since until contains raw)"
  using set_drop_subset [of _ "js_sort by_send_time (matching since until contains raw)"]
  by (simp add: select_messages_tail set_js_sort)

lemma runRead_form:
  assumes "read_request dateParse getRoomMessages opts room since until raw"
  shows "runRead numParse dateParse getRoomMessages opts =
     map_throwing (\<lambda>msg. normalizeReadMessage room msg (truthy (opts ''strip-tags'')))
       (select_messages (effective_limit numParse opts) since until (contains_option opts) raw)"
  using assms by (simp add: runRead_def read_request_def Let_def)

subsection \<open>Concrete records and runs\<close>

lemma send_key_message_at: "send_key (message_at i t b) = Fin t"
  by (simp add: send_key_def message_at_def)

lemma send_key_message_undated: "send_key (message_undated i b) = NaN"
  by (simp add: send_key_def message_undated_def)

lemma raw_body_of_message_at: "raw_body_of (message_at i t b) = b"
  by (simp add: raw_body_of_def message_at_def)

lemma raw_body_of_message_undated: "raw_body_of (message_undated i b) = b"
  by (simp add: raw_body_of_def message_undated_def)

lemma normalize_message_undated:
  "normalizeReadMessage room (message_undated i b) strip =
     Inr \<lparr> roomId = String_of room, messageId = i, sendTimeUnix = Fin 0, sendTimeIso = None,
           accountId = None, accountName = None,
           body = (if strip then stripCommonChatworkTags b else b), rawBody = b \<rparr>"
  by (simp add: normalizeReadMessage_def Let_def send_time_or_0_def raw_body_of_def
      message_undated_def)

lemma normalize_message_at:
  "0 < n \<Longrightarrow> n \<le> 8640000000000 \<Longrightarrow>
   normalizeReadMessage room (message_at i (of_nat n) b) strip =
     Inr \<lparr> roomId = String_of room, messageId = i, sendTimeUnix = Fin (of_nat n),
           sendTimeIso = Some (ISOString (int n * 1000)),
           accountId = None, accountName = None,
           body = (if strip then stripCommonChatworkTags b else b), rawBody = b \<rparr>"
proof -
  assume p: "0 < n" and h: "n \<le> 8640000000000"
  have s: "send_time (message_at i (of_nat n) b) = Some (Num (Fin (of_int (int n))))"
    by (simp add: message_at_def)
  have k: "\<bar>int n\<bar> \<le> 8640000000000" using h by simp
  show ?thesis
    using normalize_whole [OF s k, of room strip] p
    by (simp add: raw_body_of_message_at) (simp add: message_at_def)
qed

lemma lim2: "effective_limit Map.empty [''room'' \<mapsto> Str ''42'', ''limit'' \<mapsto> Str ''2''] = 2"
  by (simp add: effective_limit_def parseIntSafe_def Number_digits_def round_double_def
      all_digits_def is_digit_def dec_value_def)

lemma lim30: "effective_limit Map.empty [''room'' \<mapsto> Str ''42''] = 30"
  by (simp add: effective_limit_def parseIntSafe_def)

lemmas stage_defs =
  select_messages_def since_filter_def until_filter_def contains_filter_def
  by_send_time_def slice_from_def to_integer_def js_ge_def
  send_key_message_at send_key_message_undated raw_body_of_message_at raw_body_of_message_undated

lemma sel_undated:
  "select_messages 30 None None []
      (PArray [message_at ''1'' 5 ''first'', message_undated ''2'' ''second''])
   = [message_at ''1'' 5 ''first'', message_undated ''2'' ''second'']"
  by (simp add: stage_defs)

lemma sel_scenario:
  "select_messages 2 None None []
      (PArray [message_at ''1'' 100 ''a'', message_at ''2'' 200 ''b'',
               message_at ''3'' 50 ''c'', message_at ''4'' 300 ''d''])
   = [message_at ''2'' 200 ''b'', message_at ''4'' 300 ''d'']"
  by (simp add: stage_defs)

lemma digits_100_200:
  "all_digits ''100''" "all_digits ''200''"
  "Number_digits ''100'' = Fin 100" "Number_digits ''200'' = Fin 200"
  by (simp_all add: all_digits_def is_digit_def Number_digits_def round_double_def dec_value_def)

lemma sel_window:
  "select_messages 30 (Some (Fin 100)) (Some (Fin 200)) []
      (PArray [message_at ''1'' 100 ''a'', message_at ''2'' 200 ''b'',
               message_at ''3'' 50 ''c'', message_at ''4'' 300 ''d''])
   = [message_at ''1'' 100 ''a'', message_at ''2'' 200 ''b'']"
  by (simp add: stage_defs)

lemma strip_to_hi: "stripCommonChatworkTags ''[To:1] hi'' = ''hi''"
  by (simp add: stripCommonChatworkTags_def match_to_def match_rp_def match_block_def
      lit_def digits1_def is_digit_def trim_def is_space_def)

lemma sel_contains:
  "select_messages 30 None None ''[To:1]''
      (PArray [message_at ''1'' 100 ''[To:1] hi'', message_at ''2'' 200 ''hi [to:1]''])
   = [message_at ''1'' 100 ''[To:1] hi'']"
  by (simp add: stage_defs)

section \<open>Read pipeline: a payload that is not an array\<close>

lemma array_or_empty_non_array: "\<not> is_array p \<Longrightarrow> array_or_empty p = []"
  by (cases p) simp_all

lemma select_messages_non_array:
  "\<not> is_array p \<Longrightarrow> select_messages limit since until contains p = []"
  by (simp add: select_messages_def array_or_empty_non_array since_filter_def until_filter_def
      contains_filter_def slice_from_def)

text \<open>
  C10.  When a read invocation passes its validation and the fetch resolves to a
  payload that is not an array (\<open>null\<close>, a string, an object, a number, a boolean),
  \<open>runRead\<close> raises nothing and its sequence of messages is empty.
\<close>

theorem runRead_non_array_payload:
  assumes "read_request dateParse getRoomMessages opts room since until p"
    and "\<not> is_array p"
  shows "runRead numParse dateParse getRoomMessages opts = Inr []"
  using assms by (simp add: runRead_form select_messages_non_array)

theorem runRead_non_array_payload_witness:
  "runRead Map.empty Map.empty (serve PNull) [''room'' \<mapsto> Str ''123''] = Inr []
   \<and> runRead Map.empty Map.empty (serve (PStr ''<html>''))
        [''room'' \<mapsto> Str ''123'', ''since'' \<mapsto> Str ''1700000000''] = Inr []
   \<and> runRead Map.empty Map.empty (serve (PObject [(''errors'', PStr ''x'')]))
        [''room'' \<mapsto> Str ''123'', ''strip-tags'' \<mapsto> Flag] = Inr []"
proof -
  have d: "all_digits ''1700000000''" by (simp add: all_digits_def is_digit_def)
  have a: "runRead Map.empty Map.empty (serve PNull) [''room'' \<mapsto> Str ''123''] = Inr []"
    by (rule runRead_non_array_payload [where room = "Str ''123''" and p = PNull
          and since = None and until = None])
       (simp_all add: read_request_def serve_def)
  have b: "runRead Map.empty Map.empty (serve (PStr ''<html>''))
        [''room'' \<mapsto> Str ''123'', ''since'' \<mapsto> Str ''1700000000''] = Inr []"
    by (rule runRead_non_array_payload [where room = "Str ''123''" and p = "PStr ''<html>''"
          and since = "Some (Number_digits ''1700000000'')" and until = None])
       (simp_all add: read_request_def serve_def d)
  have c: "runRead Map.empty Map.empty (serve (PObject [(''errors'', PStr ''x'')]))
        [''room'' \<mapsto> Str ''123'', ''strip-tags'' \<mapsto> Flag] = Inr []"
    by (rule runRead_non_array_payload [where room = "Str ''123''"
          and p = "PObject [(''errors'', PStr ''x'')]" and since = None and until = None])
       (simp_all add: read_request_def serve_def)
  show ?thesis using a b c by simp
qed

section \<open>Read pipeline: the time window\<close>

lemma in_window_inverted: "js_gt s u \<Longrightarrow> \<not> in_window (Some s) (Some u) t"
  using js_le_trans [of s t u] by (auto simp: in_window_def js_gt_def)

lemma matching_inverted: "js_gt s u \<Longrightarrow> matching (Some s) (Some u) contains raw = []"
  by (simp add: matching_def window_filters in_window_inverted contains_filter_def)

lemma select_messages_no_match:
  "matching since until contains raw = [] \<Longrightarrow> select_messages limit since until contains raw = []"
  by (simp add: select_messages_def matching_def slice_from_def)

lemma runRead_window:
  assumes rq: "read_request dateParse getRoomMessages opts room since until raw"
    and out: "runRead numParse dateParse getRoomMessages opts = Inr out"
    and c: "c \<in> set out"
  shows "\<exists>m \<in> set (matching since until (contains_option opts) raw).
           normalizeReadMessage room m (truthy (opts ''strip-tags'')) = Inr c"
proof -
  let ?f = "\<lambda>msg. normalizeReadMessage room msg (truthy (opts ''strip-tags''))"
  let ?sel = "select_messages (effective_limit numParse opts) since until (contains_option opts) raw"
  have "map_throwing ?f ?sel = Inr out"
    using rq out by (simp add: runRead_form)
  then have o: "out = map (\<lambda>x. projr (?f x)) ?sel" and r: "\<forall>x\<in>set ?sel. ?f x = Inr (projr (?f x))"
    using map_throwing_Inr [of ?f ?sel out] by simp_all
  from c o obtain m where m: "m \<in> set ?sel" "c = projr (?f m)" by auto
  have "m \<in> set (matching since until (contains_option opts) raw)"
    using m(1) set_select_messages [of "effective_limit numParse opts"] effective_limit_range
    by blast
  moreover have "?f m = Inr c" using r m by simp
  ultimately show ?thesis by blast
qed

text \<open>
  C2.  The two window filters keep a record exactly when its send time is at least
  \<open>since\<close>, if that bound is supplied, and at most \<open>until\<close>, if that one is; both
  comparisons are inclusive, and a record without a number as send time passes
  neither.  With \<open>since > until\<close> nothing is kept.  For \<open>runRead\<close> as a whole: every
  message of its output lies in the window, and under an inverted window the output
  is empty.
\<close>

theorem window_inclusive:
  "until_filter until (since_filter since ms) =
     filter (\<lambda>m. in_window since until (send_key m)) ms
   \<and> (js_gt s u \<longrightarrow> until_filter (Some u) (since_filter (Some s) ms) = [])
   \<and> (read_request dateParse getRoomMessages opts room since until raw \<longrightarrow>
        (\<forall>out. runRead numParse dateParse getRoomMessages opts = Inr out \<longrightarrow>
           (\<forall>c\<in>set out. in_window since until (sendTimeUnix c)))
        \<and> (\<forall>s' u'. since = Some s' \<and> until = Some u' \<and> js_gt s' u' \<longrightarrow>
             runRead numParse dateParse getRoomMessages opts = Inr []))"
proof -
  have a: "until_filter until (since_filter since ms) =
     filter (\<lambda>m. in_window since until (send_key m)) ms"
    by (rule window_filters)
  have b: "js_gt s u \<longrightarrow> until_filter (Some u) (since_filter (Some s) ms) = []"
    by (simp add: window_filters in_window_inverted)
  have c: "\<forall>c\<in>set out. in_window since until (sendTimeUnix c)"
    if rq: "read_request dateParse getRoomMessages opts room since until raw"
      and out: "runRead numParse dateParse getRoomMessages opts = Inr out" for out
  proof
    fix c assume "c \<in> set out"
    then obtain m where m: "m \<in> set (matching since until (contains_option opts) raw)"
        "normalizeReadMessage room m (truthy (opts ''strip-tags'')) = Inr c"
      using runRead_window [OF rq out] by blast
    have "in_window since until (send_key m)" using m(1) by (simp add: set_matching)
    then have "in_window since until (send_time_or_0 m)" by (rule in_window_key)
    moreover have "sendTimeUnix c = send_time_or_0 m" using m(2) by (auto simp: normalize_Inr_iff)
    ultimately show "in_window since until (sendTimeUnix c)" by simp
  qed
  have d: "runRead numParse dateParse getRoomMessages opts = Inr []"
    if rq: "read_request dateParse getRoomMessages opts room since until raw"
      and i: "since = Some s'" "until = Some u'" "js_gt s' u'" for s' u'
    using rq i by (simp add: runRead_form select_messages_no_match matching_inverted)
  show ?thesis using a b c d by blast
qed

theorem window_inclusive_witness:
  "map_sum id (map sendTimeUnix)
     (runRead Map.empty Map.empty
        (serve (PArray [message_at ''1'' 100 ''a'', message_at ''2'' 200 ''b'',
                        message_at ''3'' 50 ''c'', message_at ''4'' 300 ''d'']))
        [''room'' \<mapsto> Str ''42'', ''since'' \<mapsto> Str ''100'', ''until'' \<mapsto> Str ''200''])
     = Inr [Fin 100, Fin 200]
   \<and> in_window (Some (Fin 100)) (Some (Fin 200)) (Fin 100)
   \<and> in_window (Some (Fin 100)) (Some (Fin 200)) (Fin 200)
   \<and> runRead Map.empty Map.empty
        (serve (PArray [message_at ''1'' 100 ''a'', message_at ''2'' 200 ''b'',
                        message_at ''3'' 50 ''c'', message_at ''4'' 300 ''d'']))
        [''room'' \<mapsto> Str ''42'', ''since'' \<mapsto> Str ''200'', ''until'' \<mapsto> Str ''100'']
     = Inr []"
proof -
  let ?P = "PArray [message_at ''1'' 100 ''a'', message_at ''2'' 200 ''b'',
                    message_at ''3'' 50 ''c'', message_at ''4'' 300 ''d'']"
  let ?o = "[''room'' \<mapsto> Str ''42'', ''since'' \<mapsto> Str ''100'', ''until'' \<mapsto> Str ''200'']"
  let ?i = "[''room'' \<mapsto> Str ''42'', ''since'' \<mapsto> Str ''200'', ''until'' \<mapsto> Str ''100'']"
  let ?out = "[\<lparr> roomId = ''42'', messageId = ''1'', sendTimeUnix = Fin 100,
               sendTimeIso = Some (ISOString 100000), accountId = None, accountName = None,
               body = ''a'', rawBody = ''a'' \<rparr>,
            \<lparr> roomId = ''42'', messageId = ''2'', sendTimeUnix = Fin 200,
               sendTimeIso = Some (ISOString 200000), accountId = None, accountName = None,
               body = ''b'', rawBody = ''b'' \<rparr>]"
  have rq: "read_request Map.empty (serve ?P) ?o (Str ''42'') (Some (Fin 100)) (Some (Fin 200)) ?P"
    by (simp add: read_request_def serve_def digits_100_200)
  have ri: "read_request Map.empty (serve ?P) ?i (Str ''42'') (Some (Fin 200)) (Some (Fin 100)) ?P"
    by (simp add: read_request_def serve_def digits_100_200)
  have l: "effective_limit Map.empty ?o = 30"
    by (simp add: effective_limit_def parseIntSafe_def)
  have n1: "normalizeReadMessage (Str ''42'') (message_at ''1'' 100 ''a'') False =
     Inr \<lparr> roomId = ''42'', messageId = ''1'', sendTimeUnix = Fin 100,
           sendTimeIso = Some (ISOString 100000),
           accountId = None, accountName = None, body = ''a'', rawBody = ''a'' \<rparr>"
    using normalize_message_at [of 100 "Str ''42''" "''1''" "''a''" False] by simp
  have n2: "normalizeReadMessage (Str ''42'') (message_at ''2'' 200 ''b'') False =
     Inr \<lparr> roomId = ''42'', messageId = ''2'', sendTimeUnix = Fin 200,
           sendTimeIso = Some (ISOString 200000),
           accountId = None, accountName = None, body = ''b'', rawBody = ''b'' \<rparr>"
    using normalize_message_at [of 200 "Str ''42''" "''2''" "''b''" False] by simp
  have run: "runRead Map.empty Map.empty (serve ?P) ?o = Inr ?out"
    by (simp add: runRead_form [OF rq] l contains_option_def sel_window n1 n2)
  have g: "js_gt (Fin 200) (Fin 100)" by (simp add: js_gt_def)
  note w = window_inclusive [where numParse = Map.empty and dateParse = Map.empty
        and getRoomMessages = "serve ?P" and room = "Str ''42''" and raw = ?P]
  have "\<forall>c\<in>set ?out. in_window (Some (Fin 100)) (Some (Fin 200)) (sendTimeUnix c)"
    using w [where opts = ?o and since = "Some (Fin 100)" and until = "Some (Fin 200)"] rq run
    by blast
  then have a: "in_window (Some (Fin 100)) (Some (Fin 200)) (Fin 100)
     \<and> in_window (Some (Fin 100)) (Some (Fin 200)) (Fin 200)"
    by simp
  have b: "runRead Map.empty Map.empty (serve ?P) ?i = Inr []"
    using w [where opts = ?i and since = "Some (Fin 200)" and until = "Some (Fin 100)"] ri g
    by blast
  show ?thesis using run a b by simp
qed

section \<open>Read pipeline: the substring filter\<close>

lemma map_throwing_strip:
  "map_throwing (\<lambda>msg. normalizeReadMessage room msg False) xs =
     map_sum id (map (\<lambda>c. c\<lparr>body := rawBody c\<rparr>))
       (map_throwing (\<lambda>msg. normalizeReadMessage room msg strip) xs)"
  by (rule map_throwing_map_sum) (rule normalize_flag_False)

lemma runRead_without_strip:
  "runRead numParse dateParse getRoomMessages (opts(''strip-tags'' := None)) =
     map_sum id (map (\<lambda>c. c\<lparr>body := rawBody c\<rparr>))
       (runRead numParse dateParse getRoomMessages opts)"
  by (simp add: runRead_def Let_def effective_limit_def contains_option_def
      map_throwing_strip [of _ _ "truthy (opts ''strip-tags'')"]
      split: option.splits sum.splits)

text \<open>
  C3.  The substring filter keeps exactly the records whose raw body (the body text as
  received, the empty string for a record without one) has the filter text as a
  contiguous part, compared character by character.  A supplied \<open>--contains\<close> is a
  non-empty filter; every message that \<open>runRead\<close> then returns has a \<open>rawBody\<close> that
  contains it.  The stripped body plays no part: without \<open>--strip-tags\<close> the run
  returns the same messages, up to their \<open>body\<close> field.
\<close>

theorem contains_raw_body:
  "contains_filter needle ms =
     filter (\<lambda>m. needle = [] \<or> (\<exists>p s. raw_body_of m = p @ needle @ s)) ms
   \<and> (\<forall>v. opts ''contains'' = Some v \<and> truthy (Some v) \<longrightarrow>
         contains_option opts = String_of v \<and> contains_option opts \<noteq> [])
   \<and> (read_request dateParse getRoomMessages opts room since until raw \<and>
       truthy (opts ''contains'') \<longrightarrow>
        (\<forall>out. runRead numParse dateParse getRoomMessages opts = Inr out \<longrightarrow>
           (\<forall>c\<in>set out. \<exists>p s. rawBody c = p @ contains_option opts @ s)))
   \<and> runRead numParse dateParse getRoomMessages (opts(''strip-tags'' := None)) =
       map_sum id (map (\<lambda>c. c\<lparr>body := rawBody c\<rparr>))
         (runRead numParse dateParse getRoomMessages opts)"
proof -
  have a: "contains_filter needle ms =
     filter (\<lambda>m. needle = [] \<or> (\<exists>p s. raw_body_of m = p @ needle @ s)) ms"
    by (rule contains_filter_iff)
  have b: "\<forall>v. opts ''contains'' = Some v \<and> truthy (Some v) \<longrightarrow>
         contains_option opts = String_of v \<and> contains_option opts \<noteq> []"
  proof (intro allI impI)
    fix v assume "opts ''contains'' = Some v \<and> truthy (Some v)"
    then show "contains_option opts = String_of v \<and> contains_option opts \<noteq> []"
      by (cases v) (simp_all add: contains_option_def)
  qed
  have c: "\<forall>c\<in>set out. \<exists>p s. rawBody c = p @ contains_option opts @ s"
    if rq: "read_request dateParse getRoomMessages opts room since until raw"
      and t: "truthy (opts ''contains'')"
      and out: "runRead numParse dateParse getRoomMessages opts = Inr out" for out
  proof
    fix c assume "c \<in> set out"
    then obtain m where m: "m \<in> set (matching since until (contains_option opts) raw)"
        "normalizeReadMessage room m (truthy (opts ''strip-tags'')) = Inr c"
      using runRead_window [OF rq out] by blast
    from t obtain v where "opts ''contains'' = Some v" "truthy (Some v)"
      by (cases "opts ''contains''") auto
    then have "contains_option opts \<noteq> []" using b by blast
    then have "\<exists>p s. raw_body_of m = p @ contains_option opts @ s"
      using m(1) by (simp add: set_matching)
    moreover have "rawBody c = raw_body_of m" using m(2) by (auto simp: normalize_Inr_iff)
    ultimately show "\<exists>p s. rawBody c = p @ contains_option opts @ s" by simp
  qed
  show ?thesis using a b c runRead_without_strip [of numParse dateParse getRoomMessages opts]
    by blast
qed

theorem contains_raw_body_witness:
  "runRead Map.empty Map.empty
      (serve (PArray [message_at ''1'' 100 ''[To:1] hi'', message_at ''2'' 200 ''hi [to:1]'']))
      [''room'' \<mapsto> Str ''42'', ''contains'' \<mapsto> Str ''[To:1]'', ''strip-tags'' \<mapsto> Flag]
     = Inr [\<lparr> roomId = ''42'', messageId = ''1'', sendTimeUnix = Fin 100,
               sendTimeIso = Some (ISOString 100000), accountId = None, accountName = None,
               body = ''hi'', rawBody = ''[To:1] hi'' \<rparr>]
   \<and> (\<exists>p s. ''[To:1] hi'' = p @ ''[To:1]'' @ s)"
proof -
  let ?P = "PArray [message_at ''1'' 100 ''[To:1] hi'', message_at ''2'' 200 ''hi [to:1]'']"
  let ?o = "[''room'' \<mapsto> Str ''42'', ''contains'' \<mapsto> Str ''[To:1]'', ''strip-tags'' \<mapsto> Flag]"
  let ?out = "[\<lparr> roomId = ''42'', messageId = ''1'', sendTimeUnix = Fin 100,
               sendTimeIso = Some (ISOString 100000), accountId = None, accountName = None,
               body = ''hi'', rawBody = ''[To:1] hi'' \<rparr>]"
  have rq: "read_request Map.empty (serve ?P) ?o (Str ''42'') None None ?P"
    by (simp add: read_request_def serve_def)
  have l: "effective_limit Map.empty ?o = 30"
    by (simp add: effective_limit_def parseIntSafe_def)
  have c: "contains_option ?o = ''[To:1]''" by (simp add: contains_option_def)
  have n1: "normalizeReadMessage (Str ''42'') (message_at ''1'' 100 ''[To:1] hi'') True =
     Inr \<lparr> roomId = ''42'', messageId = ''1'', sendTimeUnix = Fin 100,
           sendTimeIso = Some (ISOString 100000),
           accountId = None, accountName = None, body = ''hi'', rawBody = ''[To:1] hi'' \<rparr>"
    using normalize_message_at [of 100 "Str ''42''" "''1''" "''[To:1] hi''" True]
    by (simp add: strip_to_hi)
  have run: "runRead Map.empty Map.empty (serve ?P) ?o = Inr ?out"
    by (simp add: runRead_form [OF rq] l c sel_contains n1)
  have t: "truthy (?o ''contains'')" by simp
  have "\<forall>c\<in>set ?out. \<exists>p s. rawBody c = p @ contains_option ?o @ s"
    using contains_raw_body [where numParse = Map.empty and dateParse = Map.empty
        and getRoomMessages = "serve ?P" and room = "Str ''42''" and raw = ?P
        and opts = ?o and since = None and until = None] rq run t
    by blast
  then have "\<exists>p s. ''[To:1] hi'' = p @ ''[To:1]'' @ s" by (simp add: c)
  then show ?thesis using run by simp
qed

section \<open>Read pipeline: order, limit and tail\<close>

lemma bounded_numeric:
  assumes "since \<noteq> None \<or> until \<noteq> None"
    and "m \<in> set (matching since until contains raw)"
  shows "send_key m \<noteq> NaN"
proof -
  have w: "in_window since until (send_key m)" using assms(2) by (simp add: set_matching)
  show ?thesis
  proof
    assume "send_key m = NaN"
    with w assms(1) show False
      by (cases since; cases until) (simp_all add: in_window_def js_le_NaN_right)
  qed
qed

lemma length_js_sort: "length (js_sort cmp xs) = length xs"
  using mset_js_sort [of cmp xs] by (metis size_mset)

lemma floor_limit_le: "1 \<le> (l::rat) \<Longrightarrow> of_nat (nat \<lfloor>l\<rfloor>) \<le> l"
proof -
  assume "1 \<le> l"
  then have "0 \<le> \<lfloor>l\<rfloor>" by linarith
  then have "(of_nat (nat \<lfloor>l\<rfloor>) :: rat) = of_int \<lfloor>l\<rfloor>" by simp
  then show ?thesis by simp
qed

text \<open>The clamp: below 1 gives 1, above 100 gives 100, anything between is kept.\<close>

lemma effective_limit_clamp:
  "effective_limit numParse opts =
     (case Number_of numParse (opts ''limit'') of
        Fin r \<Rightarrow> if r < 1 then 1 else if 100 < r then 100 else r
      | _ \<Rightarrow> 30)"
  by (simp add: effective_limit_def parseIntSafe_def max_def min_def split: jsnum.splits)

lemma effective_limit_digits:
  assumes "opts ''limit'' = Some (Str s)" and "all_digits s" and "dec_value s < 2 ^ 53"
  shows "effective_limit numParse opts =
     (if dec_value s < 1 then 1 else if 100 < dec_value s then 100 else of_nat (dec_value s))"
proof -
  have "s \<noteq> []" using assms(2) by (simp add: all_digits_def)
  then have "Number_of numParse (opts ''limit'') = Fin (of_nat (dec_value s))"
    using assms by (simp add: Number_digits_def round_double_def)
  then show ?thesis by (simp add: effective_limit_clamp)
qed

lemma map_throwing_total:
  "\<forall>x\<in>set xs. \<exists>y. f x = Inr y \<Longrightarrow> \<exists>ys. map_throwing f xs = Inr ys"
  by (induction xs) auto

lemma runRead_tail:
  assumes rq: "read_request dateParse getRoomMessages opts room since until raw"
  shows "runRead numParse dateParse getRoomMessages opts =
     map_throwing (\<lambda>msg. normalizeReadMessage room msg (truthy (opts ''strip-tags'')))
       (drop (length (matching since until (contains_option opts) raw) -
               nat \<lfloor>effective_limit numParse opts\<rfloor>)
          (js_sort by_send_time (matching since until (contains_option opts) raw)))"
  using rq effective_limit_range [of numParse opts]
  by (simp add: runRead_form select_messages_tail)

lemma runRead_returns:
  assumes rq: "read_request dateParse getRoomMessages opts room since until raw"
    and v: "\<forall>m\<in>set (matching since until (contains_option opts) raw).
              \<exists>k::int. send_time m = Some (Num (Fin (of_int k))) \<and> \<bar>k\<bar> \<le> 8640000000000"
  shows "\<exists>out. runRead numParse dateParse getRoomMessages opts = Inr out"
proof -
  let ?M = "matching since until (contains_option opts) raw"
  let ?f = "\<lambda>msg. normalizeReadMessage room msg (truthy (opts ''strip-tags''))"
  let ?T = "drop (length ?M - nat \<lfloor>effective_limit numParse opts\<rfloor>) (js_sort by_send_time ?M)"
  have "\<forall>x\<in>set ?T. \<exists>y. ?f x = Inr y"
  proof
    fix x assume "x \<in> set ?T"
    then have "x \<in> set (js_sort by_send_time ?M)" by (rule in_set_dropD)
    then have "x \<in> set ?M" by (simp add: set_js_sort)
    then obtain k :: int where "send_time x = Some (Num (Fin (of_int k)))" "\<bar>k\<bar> \<le> 8640000000000"
      using v by blast
    then show "\<exists>y. ?f x = Inr y"
      using normalize_whole [of x k room "truthy (opts ''strip-tags'')"] by blast
  qed
  then have "\<exists>ys. map_throwing ?f ?T = Inr ys" by (rule map_throwing_total)
  then show ?thesis by (simp add: runRead_tail [OF rq])
qed

lemma sorted_output:
  assumes m: "map_throwing (\<lambda>msg. normalizeReadMessage room msg strip) xs = Inr out"
    and s: "sorted_wrt key_le xs"
    and n: "\<forall>m\<in>set xs. send_key m \<noteq> NaN"
  shows "sorted_wrt (\<lambda>a b. js_le (sendTimeUnix a) (sendTimeUnix b)) out"
proof -
  let ?f = "\<lambda>msg. normalizeReadMessage room msg strip"
  have o: "out = map (\<lambda>x. projr (?f x)) xs" and r: "\<forall>x\<in>set xs. ?f x = Inr (projr (?f x))"
    using map_throwing_Inr [OF m] by simp_all
  have k: "sendTimeUnix (projr (?f x)) = send_key x" if "x \<in> set xs" for x
  proof -
    have "?f x = Inr (projr (?f x))" using r that by blast
    then have "sendTimeUnix (projr (?f x)) = send_time_or_0 x"
      by (auto simp: normalize_Inr_iff)
    then show ?thesis using n that by (simp add: send_key_or_0)
  qed
  have "sorted_wrt (\<lambda>a b. js_le (sendTimeUnix (projr (?f a))) (sendTimeUnix (projr (?f b)))) xs"
    using s k by (auto simp: key_le_def intro: sorted_wrt_mono_rel [of xs key_le])
  then show ?thesis by (simp add: o sorted_wrt_map)
qed

text \<open>
  The condition of the order is needed: a record without \<open>send_time\<close>, which is not a
  raw message of the service, makes the comparator yield \<open>NaN\<close>, which the sort reads
  as equal (on these two records the comparator is consistent: everything compares
  equal, so every engine keeps their order); with no bound supplied the record keeps
  its place after the one sent at 5, the normalizer gives it the send time 0, and the
  output reads 5, 0.
\<close>

lemma runRead_undated_record:
  "map_sum id (map sendTimeUnix)
     (runRead Map.empty Map.empty
        (serve (PArray [message_at ''1'' 5 ''first'', message_undated ''2'' ''second'']))
        [''room'' \<mapsto> Str ''42''])
     = Inr [Fin 5, Fin 0]"
proof -
  let ?P = "PArray [message_at ''1'' 5 ''first'', message_undated ''2'' ''second'']"
  have rq: "read_request Map.empty (serve ?P) [''room'' \<mapsto> Str ''42''] (Str ''42'') None None ?P"
    by (simp add: read_request_def serve_def)
  have n: "normalizeReadMessage (Str ''42'') (message_at ''1'' 5 ''first'') False =
     Inr \<lparr> roomId = ''42'', messageId = ''1'', sendTimeUnix = Fin 5,
           sendTimeIso = Some (ISOString 5000),
           accountId = None, accountName = None, body = ''first'', rawBody = ''first'' \<rparr>"
    using normalize_message_at [of 5 "Str ''42''" "''1''" "''first''" False] by simp
  show ?thesis
    by (simp add: runRead_form [OF rq] lim30 contains_option_def sel_undated n
        normalize_message_undated)
qed

text \<open>
  C1.  The effective limit lies in \<open>[1, 100]\<close>: it is the number of \<open>--limit\<close> when
  that is finite, raised to 1 when it is below and lowered to 100 when it is above, and
  30 when there is no \<open>--limit\<close> (or one that is not a finite number); for a \<open>--limit\<close>
  written in digits that number is the one written.  For a read invocation that passes
  validation, fetches \<open>raw\<close> and returns \<open>out\<close>: \<open>out\<close> has at most that many
  messages, each the normalization of a record that passes the filters.  When every
  matching record carries a number as \<open>send_time\<close>, as the records of the service do
  and as every record that passes a supplied \<open>since\<close> or \<open>until\<close> bound does: the
  sort puts the matching records in ascending order of send time, keeping the order
  of the payload among equal send times; \<open>out\<close> is the normalization, in order, of
  the last \<open>floor limit\<close> records of that sequence (all of them when there are
  fewer); and \<open>out\<close> ascends by send time.  The invocation does return when the send
  times of the matching records are whole seconds in the range of dates.
\<close>

theorem runRead_tail_of_sorted:
  "1 \<le> effective_limit numParse opts \<and> effective_limit numParse opts \<le> 100
   \<and> (opts ''limit'' = None \<longrightarrow> effective_limit numParse opts = 30)
   \<and> effective_limit numParse opts =
       (case Number_of numParse (opts ''limit'') of
          Fin r \<Rightarrow> if r < 1 then 1 else if 100 < r then 100 else r
        | _ \<Rightarrow> 30)
   \<and> (\<forall>s. opts ''limit'' = Some (Str s) \<and> all_digits s \<and> dec_value s < 2 ^ 53 \<longrightarrow>
         effective_limit numParse opts =
           (if dec_value s < 1 then 1 else if 100 < dec_value s then 100
            else of_nat (dec_value s)))
   \<and> (read_request dateParse getRoomMessages opts room since until raw \<and>
       runRead numParse dateParse getRoomMessages opts = Inr out \<longrightarrow>
        of_nat (length out) \<le> effective_limit numParse opts
        \<and> (\<forall>c\<in>set out. \<exists>m\<in>set (matching since until (contains_option opts) raw).
               normalizeReadMessage room m (truthy (opts ''strip-tags'')) = Inr c)
        \<and> ((\<forall>m\<in>set (matching since until (contains_option opts) raw). send_key m \<noteq> NaN) \<longrightarrow>
              sorted_wrt key_le
                (js_sort by_send_time (matching since until (contains_option opts) raw))
              \<and> mset (js_sort by_send_time (matching since until (contains_option opts) raw)) =
                  mset (matching since until (contains_option opts) raw)
              \<and> (\<forall>k. filter (\<lambda>m. send_key m = k)
                        (js_sort by_send_time (matching since until (contains_option opts) raw)) =
                      filter (\<lambda>m. send_key m = k)
                        (matching since until (contains_option opts) raw))
              \<and> map_throwing
                    (\<lambda>msg. normalizeReadMessage room msg (truthy (opts ''strip-tags'')))
                    (drop (length (matching since until (contains_option opts) raw) -
                            nat \<lfloor>effective_limit numParse opts\<rfloor>)
                       (js_sort by_send_time (matching since until (contains_option opts) raw)))
                  = Inr out
              \<and> sorted_wrt (\<lambda>a b. js_le (sendTimeUnix a) (sendTimeUnix b)) out)
        \<and> (since \<noteq> None \<or> until \<noteq> None \<longrightarrow>
              (\<forall>m\<in>set (matching since until (contains_option opts) raw). send_key m \<noteq> NaN)))
   \<and> (\<forall>m. (\<exists>v. send_time m = Some (Num v) \<and> v \<noteq> NaN) \<longrightarrow> send_key m \<noteq> NaN)
   \<and> (read_request dateParse getRoomMessages opts room since until raw \<and>
       (\<forall>m\<in>set (matching since until (contains_option opts) raw).
          \<exists>k::int. send_time m = Some (Num (Fin (of_int k))) \<and> \<bar>k\<bar> \<le> 8640000000000) \<longrightarrow>
        (\<exists>out'. runRead numParse dateParse getRoomMessages opts = Inr out'))"
proof -
  let ?M = "matching since until (contains_option opts) raw"
  let ?S = "js_sort by_send_time ?M"
  let ?l = "effective_limit numParse opts"
  let ?f = "\<lambda>msg. normalizeReadMessage room msg (truthy (opts ''strip-tags''))"
  have lim: "1 \<le> ?l \<and> ?l \<le> 100" by (rule effective_limit_range)
  have dflt: "opts ''limit'' = None \<longrightarrow> ?l = 30" by (simp add: effective_limit_default)
  have clamp: "?l = (case Number_of numParse (opts ''limit'') of
          Fin r \<Rightarrow> if r < 1 then 1 else if 100 < r then 100 else r
        | _ \<Rightarrow> 30)"
    by (rule effective_limit_clamp)
  have digits: "\<forall>s. opts ''limit'' = Some (Str s) \<and> all_digits s \<and> dec_value s < 2 ^ 53 \<longrightarrow>
         ?l = (if dec_value s < 1 then 1 else if 100 < dec_value s then 100
               else of_nat (dec_value s))"
    using effective_limit_digits [of opts _ numParse] by blast
  have main: "of_nat (length out) \<le> ?l
        \<and> (\<forall>c\<in>set out. \<exists>m\<in>set ?M. ?f m = Inr c)
        \<and> ((\<forall>m\<in>set ?M. send_key m \<noteq> NaN) \<longrightarrow>
              sorted_wrt key_le ?S
              \<and> mset ?S = mset ?M
              \<and> (\<forall>k. filter (\<lambda>m. send_key m = k) ?S = filter (\<lambda>m. send_key m = k) ?M)
              \<and> map_throwing ?f (drop (length ?M - nat \<lfloor>?l\<rfloor>) ?S) = Inr out
              \<and> sorted_wrt (\<lambda>a b. js_le (sendTimeUnix a) (sendTimeUnix b)) out)
        \<and> (since \<noteq> None \<or> until \<noteq> None \<longrightarrow> (\<forall>m\<in>set ?M. send_key m \<noteq> NaN))"
    if rq: "read_request dateParse getRoomMessages opts room since until raw"
      and out: "runRead numParse dateParse getRoomMessages opts = Inr out"
  proof -
    have t: "map_throwing ?f (drop (length ?M - nat \<lfloor>?l\<rfloor>) ?S) = Inr out"
      using runRead_tail [OF rq, of numParse] out by simp
    have "length out = length (drop (length ?M - nat \<lfloor>?l\<rfloor>) ?S)"
      using map_throwing_Inr [OF t] by simp
    then have "length out \<le> nat \<lfloor>?l\<rfloor>" by (simp add: length_js_sort)
    then have "(of_nat (length out) :: rat) \<le> of_nat (nat \<lfloor>?l\<rfloor>)" by (simp only: of_nat_le_iff)
    then have len: "of_nat (length out) \<le> ?l"
      using floor_limit_le [of ?l] lim by linarith
    have src: "\<forall>c\<in>set out. \<exists>m\<in>set ?M. ?f m = Inr c"
      using runRead_window [OF rq out] by blast
    have srt: "sorted_wrt key_le ?S \<and> sorted_wrt (\<lambda>a b. js_le (sendTimeUnix a) (sendTimeUnix b)) out"
      if num: "\<forall>m\<in>set ?M. send_key m \<noteq> NaN"
    proof -
      from num have s: "sorted_wrt key_le ?S" by (rule sorted_js_sort)
      then have "sorted_wrt key_le (drop (length ?M - nat \<lfloor>?l\<rfloor>) ?S)"
        by (rule sorted_wrt_drop)
      moreover have "\<forall>m\<in>set (drop (length ?M - nat \<lfloor>?l\<rfloor>) ?S). send_key m \<noteq> NaN"
        using num set_drop_subset [of "length ?M - nat \<lfloor>?l\<rfloor>" ?S] by (auto simp: set_js_sort)
      ultimately have "sorted_wrt (\<lambda>a b. js_le (sendTimeUnix a) (sendTimeUnix b)) out"
        using sorted_output [OF t] by blast
      then show ?thesis using s by simp
    qed
    have bnd: "since \<noteq> None \<or> until \<noteq> None \<longrightarrow> (\<forall>m\<in>set ?M. send_key m \<noteq> NaN)"
      using bounded_numeric [of since until _ "contains_option opts" raw] by blast
    have perm: "mset ?S = mset ?M" by (rule mset_js_sort)
    have stab: "\<forall>k. filter (\<lambda>m. send_key m = k) ?S = filter (\<lambda>m. send_key m = k) ?M"
      by (simp add: stable_js_sort)
    show ?thesis using len src t srt perm stab bnd by blast
  qed
  have dated: "\<forall>m. (\<exists>v. send_time m = Some (Num v) \<and> v \<noteq> NaN) \<longrightarrow> send_key m \<noteq> NaN"
    by (auto simp: send_key_def)
  have ret: "read_request dateParse getRoomMessages opts room since until raw \<and>
       (\<forall>m\<in>set ?M. \<exists>k::int. send_time m = Some (Num (Fin (of_int k))) \<and> \<bar>k\<bar> \<le> 8640000000000) \<longrightarrow>
        (\<exists>out'. runRead numParse dateParse getRoomMessages opts = Inr out')"
    using runRead_returns [of dateParse getRoomMessages opts room since until raw numParse]
    by blast
  show ?thesis using lim dflt clamp digits main dated ret by blast
qed

theorem runRead_tail_of_sorted_witness:
  "runRead Map.empty Map.empty
        (serve (PArray [message_at ''1'' 100 ''a'', message_at ''2'' 200 ''b'',
                        message_at ''3'' 50 ''c'', message_at ''4'' 300 ''d'']))
        [''room'' \<mapsto> Str ''42'', ''limit'' \<mapsto> Str ''2'']
     = Inr [\<lparr> roomId = ''42'', messageId = ''2'', sendTimeUnix = Fin 200,
               sendTimeIso = Some (ISOString 200000), accountId = None, accountName = None,
               body = ''b'', rawBody = ''b'' \<rparr>,
            \<lparr> roomId = ''42'', messageId = ''4'', sendTimeUnix = Fin 300,
               sendTimeIso = Some (ISOString 300000), accountId = None, accountName = None,
               body = ''d'', rawBody = ''d'' \<rparr>]
   \<and> sorted_wrt (\<lambda>a b. js_le (sendTimeUnix a) (sendTimeUnix b))
        [\<lparr> roomId = ''42'', messageId = ''2'', sendTimeUnix = Fin 200,
               sendTimeIso = Some (ISOString 200000), accountId = None, accountName = None,
               body = ''b'', rawBody = ''b'' \<rparr>,
            \<lparr> roomId = ''42'', messageId = ''4'', sendTimeUnix = Fin 300,
               sendTimeIso = Some (ISOString 300000), accountId = None, accountName = None,
               body = ''d'', rawBody = ''d'' \<rparr>]
   \<and> effective_limit Map.empty [''room'' \<mapsto> Str ''42'', ''limit'' \<mapsto> Str ''2''] = 2
   \<and> effective_limit Map.empty [''room'' \<mapsto> Str ''42''] = 30
   \<and> effective_limit Map.empty [''room'' \<mapsto> Str ''42'', ''limit'' \<mapsto> Str ''0''] = 1
   \<and> effective_limit Map.empty [''room'' \<mapsto> Str ''42'', ''limit'' \<mapsto> Str ''500''] = 100
   \<and> effective_limit Map.empty [''room'' \<mapsto> Str ''42'', ''limit'' \<mapsto> Str ''many''] = 30"
proof -
  let ?P = "PArray [message_at ''1'' 100 ''a'', message_at ''2'' 200 ''b'',
                    message_at ''3'' 50 ''c'', message_at ''4'' 300 ''d'']"
  let ?o = "[''room'' \<mapsto> Str ''42'', ''limit'' \<mapsto> Str ''2'']"
  let ?out = "[\<lparr> roomId = ''42'', messageId = ''2'', sendTimeUnix = Fin 200,
               sendTimeIso = Some (ISOString 200000), accountId = None, accountName = None,
               body = ''b'', rawBody = ''b'' \<rparr>,
            \<lparr> roomId = ''42'', messageId = ''4'', sendTimeUnix = Fin 300,
               sendTimeIso = Some (ISOString 300000), accountId = None, accountName = None,
               body = ''d'', rawBody = ''d'' \<rparr>]"
  have rq: "read_request Map.empty (serve ?P) ?o (Str ''42'') None None ?P"
    by (simp add: read_request_def serve_def)
  have n2: "normalizeReadMessage (Str ''42'') (message_at ''2'' 200 ''b'') False =
     Inr \<lparr> roomId = ''42'', messageId = ''2'', sendTimeUnix = Fin 200,
           sendTimeIso = Some (ISOString 200000),
           accountId = None, accountName = None, body = ''b'', rawBody = ''b'' \<rparr>"
    using normalize_message_at [of 200 "Str ''42''" "''2''" "''b''" False] by simp
  have n4: "normalizeReadMessage (Str ''42'') (message_at ''4'' 300 ''d'') False =
     Inr \<lparr> roomId = ''42'', messageId = ''4'', sendTimeUnix = Fin 300,
           sendTimeIso = Some (ISOString 300000),
           accountId = None, accountName = None, body = ''d'', rawBody = ''d'' \<rparr>"
    using normalize_message_at [of 300 "Str ''42''" "''4''" "''d''" False] by simp
  have run: "runRead Map.empty Map.empty (serve ?P) ?o = Inr ?out"
    by (simp add: runRead_form [OF rq] lim2 contains_option_def sel_scenario n2 n4)
  have num: "\<forall>m\<in>set (matching None None (contains_option ?o) ?P). send_key m \<noteq> NaN"
    by (auto simp: set_matching send_key_message_at)
  note inst = runRead_tail_of_sorted [where numParse = Map.empty and opts = ?o
        and dateParse = Map.empty and getRoomMessages = "serve ?P" and room = "Str ''42''"
        and since = None and until = None and raw = ?P and out = ?out]
  have srt: "sorted_wrt (\<lambda>a b. js_le (sendTimeUnix a) (sendTimeUnix b)) ?out"
    using inst rq run num by blast
  have l0: "effective_limit Map.empty [''room'' \<mapsto> Str ''42'', ''limit'' \<mapsto> Str ''0''] = 1"
    by (simp add: effective_limit_clamp Number_digits_def round_double_def
        all_digits_def is_digit_def dec_value_def)
  have l500: "effective_limit Map.empty [''room'' \<mapsto> Str ''42'', ''limit'' \<mapsto> Str ''500''] = 100"
    by (simp add: effective_limit_clamp Number_digits_def round_double_def
        all_digits_def is_digit_def dec_value_def)
  have lmany: "effective_limit Map.empty [''room'' \<mapsto> Str ''42'', ''limit'' \<mapsto> Str ''many''] = 30"
    by (simp add: effective_limit_clamp all_digits_def is_digit_def)
  show ?thesis using run srt lim2 lim30 l0 l500 lmany by simp
qed

end
